theory Spec2Isabelle
  imports Complex_Main
begin

section \<open>Vehicle movement simulation: the playback engine of app.js\<close>

text \<open>
  The script keeps its state in module-level variables, in two Leaflet layers and a marker,
  and in the text of a few page elements. The model is one record of all of them, and every
  function of the script is a function from the state to an outcome.

  Numbers of the script are doubles. The model takes them as real numbers and rounds, with
  \<open>fl\<close> below, the result of every operation of the interpolation, of the distance and of
  the speed, where the rounding decides what the page shows; a distance can also be \<open>NaN\<close>,
  which is \<open>None\<close>. The arithmetic on times (differences of time stamps and clock
  readings, the quotients that give the segment duration and the fraction) is kept exact,
  so a division of that kind is only modelled where its divisor is not zero, and the
  theorems that depend on one say so in their hypotheses. Overflow to an infinity is not
  modelled. The time value of a \<open>Date\<close> is its number of milliseconds; \<open>null\<close> is
  \<open>None\<close>.
\<close>

subsection \<open>Data\<close>

record waypoint =
  lat :: real
  lng :: real
  timestamp :: "real option"

subsection \<open>Doubles\<close>

text \<open>Two to an integer power.\<close>

definition pow2 :: "int \<Rightarrow> real" where
  "pow2 e = (if 0 \<le> e then 2 ^ nat e else 1 / 2 ^ nat (- e))"

text \<open>The nearest integer, the even one of two that are equally near.\<close>

definition rne :: "real \<Rightarrow> int" where
  "rne y = (let f = \<lfloor>y\<rfloor>; r = y - of_int f
            in if r < 1 / 2 then f else if 1 / 2 < r then f + 1 else if even f then f else f + 1)"

text \<open>
  The exponent of the binade of a number that is not zero; below the smallest normal double the
  exponent stays at -1022 (the subnormal numbers).
\<close>

definition expo :: "real \<Rightarrow> int" where
  "expo x = max \<lfloor>log 2 \<bar>x\<bar>\<rfloor> (- 1022)"

text \<open>
  The double nearest to a real number: 53 significant bits, ties to even. This is the value
  an arithmetic operation of the script returns for the exact result \<open>x\<close>.
\<close>

definition fl :: "real \<Rightarrow> real" where
  "fl x = (if x = 0 then 0 else of_int (rne (x / pow2 (expo x - 52))) * pow2 (expo x - 52))"

text \<open>A coordinate as a route holds it: a double, within the range of a longitude.\<close>

definition coordinate :: "real \<Rightarrow> bool" where
  "coordinate x \<longleftrightarrow> fl x = x \<and> \<bar>x\<bar> \<le> 180"

text \<open>
  The functions of the host that the script calls and whose results the language leaves to
  the implementation: \<open>Math.sin\<close>, \<open>Math.cos\<close>, the power operator, \<open>Math.sqrt\<close> (on
  an argument that is not negative) and \<open>Math.atan2\<close>. They are part of the state of the page.
\<close>

record math =
  Msin :: "real \<Rightarrow> real"
  Mcos :: "real \<Rightarrow> real"
  Mpow :: "real \<Rightarrow> nat \<Rightarrow> real"
  Msqrt :: "real \<Rightarrow> real"
  Matan2 :: "real \<Rightarrow> real \<Rightarrow> real"

text \<open>\<open>Math.atan2(y, x)\<close> as the function of real arguments it approximates.\<close>

definition atan2 :: "real \<Rightarrow> real \<Rightarrow> real" where
  "atan2 y x =
     (if 0 < x then arctan (y / x)
      else if x < 0 then (if 0 \<le> y then arctan (y / x) + pi else arctan (y / x) - pi)
      else if 0 < y then pi / 2
      else if y < 0 then - (pi / 2)
      else 0)"

text \<open>A host whose functions return the exact values; the sample runs use it.\<close>

definition exactMath :: math where
  "exactMath = \<lparr>Msin = sin, Mcos = cos, Mpow = (\<lambda>x n. x ^ n), Msqrt = sqrt, Matan2 = atan2\<rparr>"

subsection \<open>The page\<close>

text \<open>
  The text content of a page element. The script writes literals, numbers printed with
  \<open>toFixed\<close>, dates printed with \<open>toISOString\<close>, and template strings around them;
  the number formatting of the host is kept symbolic.
\<close>

datatype content =
    Blank               \<comment> \<open>what the page markup holds before the script writes\<close>
  | Lit string          \<comment> \<open>a string the script builds itself\<close>
  | Dash                \<comment> \<open>the one-character placeholder for an unknown value\<close>
  | Fixed nat real      \<comment> \<open>\<open>x.toFixed(n)\<close>\<close>
  | Kmh "real option"   \<comment> \<open>\<open>x.toFixed(2)\<close> followed by \<open>km/h\<close>; \<open>None\<close> is \<open>NaN\<close>\<close>
  | Iso real            \<comment> \<open>\<open>new Date(ms).toISOString()\<close>\<close>
  | Times real          \<comment> \<open>the number followed by the multiplication sign\<close>

datatype js_error = TypeError | RouteEmpty

record state =
  route :: "waypoint list"
  index :: nat
  playing :: bool
  speedMultiplier :: real
  animRequest :: "nat option"
  segmentStartTime :: "real option"
  segmentDuration :: real
  segmentFrom :: "waypoint option"
  segmentTo :: "waypoint option"
  startSimTime :: "real option"
  fullPolyline :: "(real \<times> real) list"
  livePolyline :: "(real \<times> real) list"
  bikeMarker :: "real \<times> real"
  playPauseBtn :: content
  speedValue :: content
  latEl :: content
  lngEl :: content
  timestampEl :: content
  elapsedEl :: content
  speedEl :: content
  progressEl :: content
  pending :: "nat list"
  nextHandle :: nat
  mathLib :: math

text \<open>
  A function of the script either returns or throws; the assignments made before a throw
  stay, so both outcomes carry the state.
\<close>

datatype outcome = Done state | Threw js_error state

fun state_of :: "outcome \<Rightarrow> state" where
  "state_of (Done s) = s"
| "state_of (Threw e s) = s"

fun returned :: "outcome \<Rightarrow> bool" where
  "returned (Done s) = True"
| "returned (Threw e s) = False"

text \<open>
  The state when the script has run \<open>initMap\<close> and has not yet loaded a route: the
  module-level variables at their initial values, empty layers, the marker on the default
  centre of the map; the host is the exact one.
\<close>

definition boot :: state where
  "boot = \<lparr> route = [], index = 0, playing = False, speedMultiplier = 1,
            animRequest = None, segmentStartTime = None, segmentDuration = 2000,
            segmentFrom = None, segmentTo = None, startSimTime = None,
            fullPolyline = [], livePolyline = [], bikeMarker = (17.385044, 78.486671),
            playPauseBtn = Blank, speedValue = Blank, latEl = Blank, lngEl = Blank,
            timestampEl = Blank, elapsedEl = Blank, speedEl = Blank, progressEl = Blank,
            pending = [], nextHandle = 0, mathLib = exactMath \<rparr>"

subsection \<open>The host: frame requests, number conversion, printing of integers\<close>

text \<open>\<open>requestAnimationFrame\<close> hands out a fresh handle and queues the callback.\<close>

definition requestAnimationFrame :: "state \<Rightarrow> nat \<times> state" where
  "requestAnimationFrame s =
     (nextHandle s, s\<lparr>pending := pending s @ [nextHandle s], nextHandle := nextHandle s + 1\<rparr>)"

text \<open>\<open>cancelAnimationFrame\<close> removes the callback of a handle; \<open>null\<close> cancels nothing.\<close>

definition cancelAnimationFrame :: "nat option \<Rightarrow> state \<Rightarrow> state" where
  "cancelAnimationFrame h s =
     (case h of None \<Rightarrow> s | Some k \<Rightarrow> s\<lparr>pending := removeAll k (pending s)\<rparr>)"

text \<open>The statement \<open>animRequest = requestAnimationFrame(animate)\<close>.\<close>

definition requestTick :: "state \<Rightarrow> state" where
  "requestTick s = (case requestAnimationFrame s of (h, s') \<Rightarrow> s'\<lparr>animRequest := Some h\<rparr>)"

text \<open>A \<open>Date\<close> or \<open>null\<close> used as a number: \<open>null\<close> counts as zero.\<close>

fun msOf :: "real option \<Rightarrow> real" where
  "msOf None = 0"
| "msOf (Some v) = v"

text \<open>A number or \<open>null\<close> used as a condition: \<open>null\<close> and zero are false.\<close>

fun falsy :: "real option \<Rightarrow> bool" where
  "falsy None = True"
| "falsy (Some v) = (v = 0)"

definition digit :: "nat \<Rightarrow> char" where
  "digit d = ''0123456789'' ! d"

fun showNat :: "nat \<Rightarrow> string" where
  "showNat n = (if n < 10 then [digit n] else showNat (n div 10) @ [digit (n mod 10)])"

declare showNat.simps [simp del]

definition showInt :: "int \<Rightarrow> string" where
  "showInt i = (if i < 0 then ''-'' @ showNat (nat (- i)) else showNat (nat i))"

definition padStart :: "nat \<Rightarrow> char \<Rightarrow> string \<Rightarrow> string" where
  "padStart n c str = replicate (n - length str) c @ str"

text \<open>The remainder operator of the script takes the sign of the dividend.\<close>

definition jsRem :: "int \<Rightarrow> int \<Rightarrow> int" where
  "jsRem a b = sgn a * (\<bar>a\<bar> mod \<bar>b\<bar>)"

subsection \<open>The pure functions of the script\<close>

definition formatTime :: "real \<Rightarrow> string" where
  "formatTime ms =
     (let s = jsRem \<lfloor>ms / 1000\<rfloor> 60;
          m = jsRem \<lfloor>ms / 60000\<rfloor> 60;
          h = \<lfloor>ms / 3600000\<rfloor>
      in padStart 2 CHR ''0'' (showInt h) @ '':'' @ padStart 2 CHR ''0'' (showInt m)
           @ '':'' @ padStart 2 CHR ''0'' (showInt s))"

text \<open>The local function \<open>toRad\<close> of \<open>haversine\<close>; \<open>Math.PI\<close> is the double nearest to \<open>pi\<close>.\<close>

definition toRad :: "real \<Rightarrow> real" where
  "toRad v = fl (fl (v * fl pi) / 180)"

text \<open>
  \<open>haversine\<close>, with the functions of the host as a parameter. \<open>Math.sqrt\<close> of a negative
  number is \<open>NaN\<close>, and so is all that is computed from it.
\<close>

fun haversine :: "math \<Rightarrow> real \<times> real \<Rightarrow> real \<times> real \<Rightarrow> real option" where
  "haversine M (lat1, lon1) (lat2, lon2) =
     (let R = 6371000;
          dLat = toRad (fl (lat2 - lat1));
          dLon = toRad (fl (lon2 - lon1));
          a = fl (Mpow M (Msin M (fl (dLat / 2))) 2
                  + fl (fl (Mcos M (toRad lat1) * Mcos M (toRad lat2))
                        * Mpow M (Msin M (fl (dLon / 2))) 2))
      in if a < 0 \<or> fl (1 - a) < 0 then None
         else Some (fl (R * fl (2 * Matan2 M (Msqrt M a) (Msqrt M (fl (1 - a)))))))"

definition lerp :: "real \<Rightarrow> real \<Rightarrow> real \<Rightarrow> real" where
  "lerp a b t = fl (a + fl (fl (b - a) * t))"

text \<open>The template string of the progress field: index plus one, a slash between two blanks, the length.\<close>

definition progressText :: "nat \<Rightarrow> nat \<Rightarrow> string" where
  "progressText i n = showNat (i + 1) @ '' / '' @ showNat n"

subsection \<open>The stateful functions of the script\<close>

text \<open>\<open>updateInfo(i)\<close> reads \<open>route[i]\<close>; outside the route that is \<open>undefined\<close> and its field access throws.\<close>

definition updateInfo :: "nat \<Rightarrow> state \<Rightarrow> outcome" where
  "updateInfo i s =
     (if i < length (route s)
      then let p = route s ! i
           in Done (s\<lparr>latEl := Fixed 6 (lat p), lngEl := Fixed 6 (lng p),
                      timestampEl := (case timestamp p of Some v \<Rightarrow> Iso v | None \<Rightarrow> Dash),
                      elapsedEl := Lit ''00:00:00'', speedEl := Dash,
                      progressEl := Lit (progressText i (length (route s)))\<rparr>)
      else Threw TypeError s)"

definition resetSimulation :: "state \<Rightarrow> outcome" where
  "resetSimulation s =
     (let s1 = cancelAnimationFrame (animRequest s) (s\<lparr>playing := False\<rparr>);
          s2 = s1\<lparr>index := 0, livePolyline := []\<rparr>
      in if 0 < length (route s2)
         then (case updateInfo 0 (s2\<lparr>bikeMarker := (lat (route s2 ! 0), lng (route s2 ! 0))\<rparr>) of
                 Done s3 \<Rightarrow> Done (s3\<lparr>playPauseBtn := Lit ''Play''\<rparr>)
               | Threw e s3 \<Rightarrow> Threw e s3)
         else Threw TypeError s2)"

text \<open>
  \<open>loadRoute\<close>, after the fetch and the conversion of the records: \<open>pts\<close> is the result of
  the \<open>map\<close> over the parsed document.
\<close>

definition loadRoute :: "waypoint list \<Rightarrow> state \<Rightarrow> outcome" where
  "loadRoute pts s =
     (let s1 = s\<lparr>route := pts\<rparr>
      in if length (route s1) = 0 then Threw RouteEmpty s1
         else let s2 = s1\<lparr>fullPolyline := map (\<lambda>p. (lat p, lng p)) (route s1)\<rparr>;
                  s3 = s2\<lparr>index := 0, livePolyline := [],
                          bikeMarker := (lat (route s2 ! 0), lng (route s2 ! 0))\<rparr>
              in updateInfo 0 s3)"

text \<open>\<open>startSegment(i)\<close>; \<open>clk\<close> is the reading of \<open>performance.now()\<close>.\<close>

definition startSegment :: "real \<Rightarrow> nat \<Rightarrow> state \<Rightarrow> state" where
  "startSegment clk i s =
     (if int i \<ge> int (length (route s)) - 1
      then s\<lparr>playing := False, playPauseBtn := Lit ''Play''\<rparr>
      else let s1 = s\<lparr>segmentFrom := Some (route s ! i), segmentTo := Some (route s ! (i + 1)),
                      segmentStartTime := Some clk\<rparr>
           in (case (timestamp (route s ! i), timestamp (route s ! (i + 1))) of
                 (Some t1, Some t2) \<Rightarrow>
                    (let dt = t2 - t1;
                         dt' = (if dt \<le> 0 then 2000 else dt)
                     in s1\<lparr>segmentDuration := dt' / speedMultiplier s1\<rparr>)
               | _ \<Rightarrow> s1\<lparr>segmentDuration := 2000 / speedMultiplier s1\<rparr>))"

text \<open>The start time a tick works with: an unset (or zero) \<open>segmentStartTime\<close> becomes \<open>now\<close>.\<close>

definition tickStart :: "real \<Rightarrow> state \<Rightarrow> real" where
  "tickStart now s = (if falsy (segmentStartTime s) then now else msOf (segmentStartTime s))"

text \<open>The value of the local variable \<open>t\<close> of a tick.\<close>

definition fraction :: "real \<Rightarrow> state \<Rightarrow> real" where
  "fraction now s = min 1 ((now - tickStart now s) / segmentDuration s)"

text \<open>
  The speed formula of a tick, \<open>(segDist / (ms / 1000)) * 3.6\<close>, for a duration \<open>ms\<close> in
  milliseconds and a distance that may be \<open>NaN\<close>.
\<close>

definition speedOver :: "real \<Rightarrow> real option \<Rightarrow> real option" where
  "speedOver ms segDist =
     (case segDist of None \<Rightarrow> None | Some d \<Rightarrow> Some (fl (fl (d / fl (ms / 1000)) * fl (36 / 10))))"

text \<open>
  The value of the local variable \<open>segSpeed\<close> of a tick on the segment from \<open>a\<close> to \<open>b\<close>,
  on the host \<open>M\<close>.
\<close>

definition segSpeed :: "math \<Rightarrow> waypoint \<Rightarrow> waypoint \<Rightarrow> real option" where
  "segSpeed M a b =
     (let segMs = msOf (timestamp b) - msOf (timestamp a);
          segDist = haversine M (lat a, lng a) (lat b, lng b)
      in if segMs > 0 then speedOver segMs segDist else Some 0)"

text \<open>
  \<open>animate(now)\<close>: \<open>now\<close> is the time stamp the host passes to the callback, \<open>clk\<close> the reading of
  \<open>performance.now()\<close> when the tick opens the next segment.
\<close>

definition animate :: "real \<Rightarrow> real \<Rightarrow> state \<Rightarrow> outcome" where
  "animate clk now s =
     (if \<not> playing s then Done s
      else
        let s1 = (if falsy (segmentStartTime s) then s\<lparr>segmentStartTime := Some now\<rparr> else s);
            elapsed = now - msOf (segmentStartTime s1);
            t = min 1 (elapsed / segmentDuration s1)
        in (case (segmentFrom s1, segmentTo s1) of
              (Some a, Some b) \<Rightarrow>
                (let la = lerp (lat a) (lat b) t;
                     lo = lerp (lng a) (lng b) t;
                     s2 = s1\<lparr>bikeMarker := (la, lo), livePolyline := livePolyline s1 @ [(la, lo)]\<rparr>;
                     distM = haversine (mathLib s2) (lat a, lng a) (la, lo);
                     segMs = msOf (timestamp b) - msOf (timestamp a);
                     segDist = haversine (mathLib s2) (lat a, lng a) (lat b, lng b);
                     speed = (if segMs > 0
                              then (case segDist of
                                      None \<Rightarrow> None
                                    | Some d \<Rightarrow> Some (fl (fl (d / fl (segMs / 1000)) * fl (36 / 10))))
                              else Some 0);
                     s3 = s2\<lparr>latEl := Fixed 6 la, lngEl := Fixed 6 lo,
                             timestampEl := (case timestamp a of
                                               Some v \<Rightarrow> Iso (v + t * segMs) | None \<Rightarrow> Dash),
                             elapsedEl := Lit (formatTime (now - msOf (startSimTime s2))),
                             speedEl := Kmh speed,
                             progressEl := Lit (progressText (index s2) (length (route s2)))\<rparr>
                 in if t \<ge> 1
                    then (let s4 = s3\<lparr>index := index s3 + 1\<rparr>
                          in if int (index s4) < int (length (route s4)) - 1
                             then Done (requestTick (startSegment clk (index s4) s4))
                             else Done (s4\<lparr>playing := False, playPauseBtn := Lit ''Play''\<rparr>))
                    else Done (requestTick s3))
            | _ \<Rightarrow> Threw TypeError s1))"

text \<open>The click handler of the play/pause button.\<close>

definition playPauseClick :: "real \<Rightarrow> state \<Rightarrow> outcome" where
  "playPauseClick clk s =
     (if length (route s) = 0 then Done s
      else if \<not> playing s
      then (case (if int (index s) \<ge> int (length (route s)) - 1
                  then resetSimulation s else Done s) of
              Threw e s' \<Rightarrow> Threw e s'
            | Done s1 \<Rightarrow>
                (let s2 = s1\<lparr>playing := True, playPauseBtn := Lit ''Pause'',
                            startSimTime := Some clk\<rparr>
                 in Done (requestTick (startSegment clk (index s2) s2))))
      else Done (cancelAnimationFrame (animRequest s)
                   (s\<lparr>playing := False, playPauseBtn := Lit ''Play''\<rparr>)))"

text \<open>
  The start of the script, after \<open>initMap\<close>: the route is loaded and the label of the
  slider is written; a failure of the load is caught and reported, and the rest is skipped.
\<close>

definition initialize :: "waypoint list \<Rightarrow> state \<Rightarrow> outcome" where
  "initialize pts s =
     (case loadRoute pts s of
        Done s1 \<Rightarrow> Done (s1\<lparr>speedValue := Times (speedMultiplier s1)\<rparr>)
      | Threw e s1 \<Rightarrow> Threw e s1)"

text \<open>The input handler of the speed slider; \<open>v\<close> is the parsed value of the slider.\<close>

definition speedInput :: "real \<Rightarrow> state \<Rightarrow> state" where
  "speedInput v s = (let s1 = s\<lparr>speedMultiplier := v\<rparr> in s1\<lparr>speedValue := Times (speedMultiplier s1)\<rparr>)"

subsection \<open>Reachable states\<close>

text \<open>
  The states the page can get into: the script starts, on any host, and tries to load some
  route, and then the user clicks the play/pause button, moves the speed slider (to a
  positive value, as the contract of the set-speed command has it), clicks reset, or the
  host runs a queued frame callback, which it takes off its queue first. Clock readings and
  frame time stamps are arbitrary.
\<close>

inductive reachable :: "state \<Rightarrow> bool" where
  start: "reachable (state_of (initialize pts (boot\<lparr>mathLib := M\<rparr>)))"
| click: "reachable s \<Longrightarrow> reachable (state_of (playPauseClick clk s))"
| speed: "reachable s \<Longrightarrow> 0 < v \<Longrightarrow> reachable (speedInput v s)"
| reset: "reachable s \<Longrightarrow> reachable (state_of (resetSimulation s))"
| frame: "reachable s \<Longrightarrow> h \<in> set (pending s) \<Longrightarrow>
            reachable (state_of (animate clk now (s\<lparr>pending := removeAll h (pending s)\<rparr>)))"

text \<open>A segment is open: the segment variables hold the waypoints at the index and after it.\<close>

definition segmentOpen :: "state \<Rightarrow> bool" where
  "segmentOpen s \<longleftrightarrow>
     index s + 1 < length (route s) \<and> segmentFrom s = Some (route s ! index s)
     \<and> segmentTo s = Some (route s ! (index s + 1))"

text \<open>
  What holds in every reachable state: multiplier and segment duration are positive, playback
  runs only on an open segment, and at most one frame request is queued, the one whose
  handle \<open>animRequest\<close> holds.
\<close>

definition invariant :: "state \<Rightarrow> bool" where
  "invariant s \<longleftrightarrow>
     0 < speedMultiplier s \<and> 0 < segmentDuration s
     \<and> (playing s \<longrightarrow> segmentOpen s)
     \<and> set (pending s) \<subseteq> set_option (animRequest s)
     \<and> length (pending s) \<le> 1
     \<and> (\<not> playing s \<and> index s + 1 < length (route s) \<longrightarrow> pending s = [])"

subsection \<open>Sample routes and states\<close>

text \<open>Three waypoints one degree and two seconds apart.\<close>

definition route3 :: "waypoint list" where
  "route3 = [\<lparr>lat = 0, lng = 0, timestamp = Some 1000\<rparr>,
             \<lparr>lat = 1, lng = 1, timestamp = Some 3000\<rparr>,
             \<lparr>lat = 2, lng = 2, timestamp = Some 5000\<rparr>]"

text \<open>Two waypoints half the equator apart, without time stamps.\<close>

definition routeGap :: "waypoint list" where
  "routeGap = [\<lparr>lat = 0, lng = 0, timestamp = None\<rparr>,
               \<lparr>lat = 0, lng = 180, timestamp = None\<rparr>]"

text \<open>
  Two waypoints at the doubles of (-0.3, -0.0005) and (0.001, 0.0003), without time stamps.
\<close>

definition routeDrift :: "waypoint list" where
  "routeDrift = [\<lparr>lat = - 5404319552844595 / 2 ^ 54, lng = - 1152921504606847 / 2 ^ 61,
                   timestamp = None\<rparr>,
                 \<lparr>lat = 1152921504606847 / 2 ^ 60, lng = 5534023222112865 / 2 ^ 64,
                   timestamp = None\<rparr>]"

text \<open>A route of one waypoint.\<close>

definition route1 :: "waypoint list" where
  "route1 = [\<lparr>lat = 5, lng = 7, timestamp = Some 1000\<rparr>]"

text \<open>The state after the script has started and loaded a route.\<close>

definition loaded :: "waypoint list \<Rightarrow> state" where
  "loaded pts = state_of (initialize pts boot)"

text \<open>Play pressed at clock reading 1000, paused at 1500, resumed at 6000.\<close>

definition playing3 :: state where
  "playing3 = state_of (playPauseClick 1000 (loaded route3))"

definition paused3 :: state where
  "paused3 = state_of (playPauseClick 1500 playing3)"

definition resumed3 :: state where
  "resumed3 = state_of (playPauseClick 6000 paused3)"

text \<open>Play pressed on the route without time stamps, and the tick that ends its only segment.\<close>

definition playingGap :: state where
  "playingGap = state_of (playPauseClick 1000 (loaded routeGap))"

definition finishedGap :: state where
  "finishedGap = state_of (animate 3000 3000 playingGap)"

text \<open>Play pressed on the route of the two close waypoints.\<close>

definition playingDrift :: state where
  "playingDrift = state_of (playPauseClick 1000 (loaded routeDrift))"

section \<open>Properties\<close>

subsection \<open>Printing\<close>

lemma showNat_small: "n < 10 \<Longrightarrow> showNat n = [digit n]"
  by (simp add: showNat.simps)

subsection \<open>Rounding to doubles\<close>

declare haversine.simps [simp del]

lemma pow2_powr: "pow2 e = 2 powr (of_int e)"
proof (cases "0 \<le> e")
  case True
  then show ?thesis
    by (simp add: pow2_def powr_realpow [symmetric])
next
  case False
  then have "2 powr (of_int e) = 1 / 2 powr (of_int (- e) :: real)"
    by (simp add: powr_minus_divide)
  also have "\<dots> = 1 / 2 ^ nat (- e)"
    using False by (simp add: powr_realpow [symmetric])
  finally show ?thesis using False by (simp add: pow2_def)
qed

lemma pow2_pos: "0 < pow2 e"
  by (simp add: pow2_powr)

lemma pow2_add: "pow2 (a + b) = pow2 a * pow2 b"
  by (simp add: pow2_powr powr_add)

lemma pow2_mono: "a \<le> b \<Longrightarrow> pow2 a \<le> pow2 b"
  by (simp add: pow2_powr)

lemma floor_log_bounds:
  assumes "x \<noteq> 0"
  shows "pow2 \<lfloor>log 2 \<bar>x\<bar>\<rfloor> \<le> \<bar>x\<bar>" and "\<bar>x\<bar> < pow2 (\<lfloor>log 2 \<bar>x\<bar>\<rfloor> + 1)"
proof -
  have p: "0 < \<bar>x\<bar>" using assms by simp
  have "of_int \<lfloor>log 2 \<bar>x\<bar>\<rfloor> \<le> log 2 \<bar>x\<bar>" by simp
  then show "pow2 \<lfloor>log 2 \<bar>x\<bar>\<rfloor> \<le> \<bar>x\<bar>"
    using p by (simp add: pow2_powr powr_le_iff)
  have "log 2 \<bar>x\<bar> < of_int (\<lfloor>log 2 \<bar>x\<bar>\<rfloor> + 1)" by linarith
  then show "\<bar>x\<bar> < pow2 (\<lfloor>log 2 \<bar>x\<bar>\<rfloor> + 1)"
    using p by (simp only: pow2_powr) (simp add: less_powr_iff)
qed

lemma floor_log_unique:
  assumes "pow2 e \<le> \<bar>x\<bar>" and "\<bar>x\<bar> < pow2 (e + 1)"
  shows "\<lfloor>log 2 \<bar>x\<bar>\<rfloor> = e"
proof -
  have p: "0 < \<bar>x\<bar>" using assms(1) pow2_pos [of e] by linarith
  have "of_int e \<le> log 2 \<bar>x\<bar>"
    using assms(1) p by (simp add: pow2_powr powr_le_iff)
  moreover have "log 2 \<bar>x\<bar> < of_int (e + 1)"
    using assms(2) p by (simp only: pow2_powr) (simp add: less_powr_iff)
  ultimately show ?thesis by linarith
qed

lemma rne_error: "\<bar>of_int (rne y) - y\<bar> \<le> 1 / 2"
  unfolding rne_def Let_def by (auto simp: abs_if) linarith+

lemma rne_of_int [simp]: "rne (of_int n) = n"
  by (simp add: rne_def)


lemma fl_zero [simp]: "fl 0 = 0"
  by (simp add: fl_def)

lemma fl_error: "\<bar>fl x - x\<bar> \<le> pow2 (expo x - 53)"
proof (cases "x = 0")
  case True
  then show ?thesis using pow2_pos [of "expo x - 53"] by simp
next
  case False
  define q where "q = pow2 (expo x - 52)"
  have q: "0 < q" by (simp add: q_def pow2_pos)
  have "fl x - x = (of_int (rne (x / q)) - x / q) * q"
    using False q by (simp add: fl_def q_def field_simps)
  then have "\<bar>fl x - x\<bar> = \<bar>of_int (rne (x / q)) - x / q\<bar> * q"
    using q by (simp add: abs_mult)
  also have "\<dots> \<le> (1 / 2) * q"
    using rne_error [of "x / q"] q by (intro mult_right_mono) simp_all
  also have "\<dots> = pow2 (expo x - 53)"
    using pow2_add [of "expo x - 53" 1] by (simp add: q_def pow2_def [of 1])
  finally show ?thesis .
qed

lemma fl_rel: "\<bar>fl x - x\<bar> \<le> \<bar>x\<bar> / 2 ^ 53 + 1 / 2 ^ 1075"
proof (cases "x = 0")
  case True
  then show ?thesis by simp
next
  case False
  show ?thesis
  proof (cases "- 1022 \<le> \<lfloor>log 2 \<bar>x\<bar>\<rfloor>")
    case True
    then have e: "expo x = \<lfloor>log 2 \<bar>x\<bar>\<rfloor>" by (simp add: expo_def)
    have "pow2 (expo x - 53) = pow2 (expo x) * pow2 (- 53)"
      using pow2_add [of "expo x" "- 53"] by simp
    also have "\<dots> \<le> \<bar>x\<bar> * pow2 (- 53)"
      using floor_log_bounds(1) [OF False] pow2_pos [of "- 53"] by (simp add: e)
    also have "\<dots> = \<bar>x\<bar> / 2 ^ 53" by (simp add: pow2_def)
    finally show ?thesis using fl_error [of x] by simp
  next
    case False
    then have "expo x = - 1022" by (simp add: expo_def)
    then have "pow2 (expo x - 53) = 1 / 2 ^ 1075" by (simp add: pow2_def)
    then show ?thesis using fl_error [of x] by simp
  qed
qed

lemma expo_eval:
  assumes "pow2 e \<le> \<bar>x\<bar>" and "\<bar>x\<bar> < pow2 (e + 1)"
  shows "expo x = max e (- 1022)"
  using floor_log_unique [OF assms] by (simp add: expo_def)

lemma fl_eval:
  assumes "pow2 e \<le> \<bar>x\<bar>" and "\<bar>x\<bar> < pow2 (e + 1)" and "k = max e (- 1022) - 52"
  shows "fl x = of_int (rne (x / pow2 k)) * pow2 k"
proof -
  have "x \<noteq> 0" using assms(1) pow2_pos [of e] by auto
  then show ?thesis using expo_eval [OF assms(1,2)] assms(3) by (simp add: fl_def)
qed

lemma fl_exact:
  assumes "pow2 e \<le> \<bar>x\<bar>" and "\<bar>x\<bar> < pow2 (e + 1)" and "k = max e (- 1022) - 52"
    and "x / pow2 k = of_int n"
  shows "fl x = x"
proof -
  have "fl x = of_int n * pow2 k"
    using fl_eval [OF assms(1-3)] assms(4) by simp
  also have "\<dots> = x"
    using assms(4) pow2_pos [of k] by (simp add: field_simps)
  finally show ?thesis .
qed

lemma fl_1: "fl 1 = 1"
  by (rule fl_exact [where e = 0 and k = "- 52" and n = "2 ^ 52"]) (simp_all add: pow2_def)

lemma fl_180: "fl 180 = 180"
  by (rule fl_exact [where e = 7 and k = "- 45" and n = "180 * 2 ^ 45"]) (simp_all add: pow2_def)

lemma fl_quarter: "fl (1 / 4) = 1 / 4" "fl (- (1 / 4)) = - (1 / 4)"
  by (rule fl_exact [where e = "- 2" and k = "- 54" and n = "2 ^ 52"]; simp add: pow2_def)
     (rule fl_exact [where e = "- 2" and k = "- 54" and n = "- (2 ^ 52)"]; simp add: pow2_def)

lemma fl_half: "fl (1 / 2) = 1 / 2"
  by (rule fl_exact [where e = "- 1" and k = "- 53" and n = "2 ^ 52"]) (simp_all add: pow2_def)

lemma fl_2: "fl 2 = 2"
  by (rule fl_exact [where e = 1 and k = "- 51" and n = "2 ^ 52"]) (simp_all add: pow2_def)

lemma rne_le: "y \<le> of_int n \<Longrightarrow> rne y \<le> n"
proof -
  assume a: "y \<le> of_int n"
  show ?thesis
  proof (cases "y = of_int n")
    case True
    then show ?thesis by simp
  next
    case False
    then have "y < of_int n" using a by simp
    then have "\<lfloor>y\<rfloor> < n" by (simp add: floor_less_iff)
    then show ?thesis by (simp add: rne_def Let_def)
  qed
qed

lemma rne_nonneg: "0 \<le> y \<Longrightarrow> 0 \<le> rne y"
  by (simp add: rne_def Let_def)

lemma fl_nonneg: "0 \<le> x \<Longrightarrow> 0 \<le> fl x"
  using pow2_pos [of "expo x - 52"] by (simp add: fl_def rne_nonneg)

lemma pow2_less_D: "pow2 a < pow2 b \<Longrightarrow> a < b"
  by (simp add: pow2_powr)

lemma fl_le_one:
  assumes "x \<le> 1"
  shows "fl x \<le> 1"
proof -
  consider "x \<le> 0" | "x = 1" | "0 < x" "x < 1" using assms by linarith
  then show ?thesis
  proof cases
    case 1
    have "- x \<ge> 0" using 1 by simp
    have "rne (x / pow2 (expo x - 52)) \<le> 0"
      using 1 pow2_pos [of "expo x - 52"] by (intro rne_le) (simp add: divide_nonpos_pos)
    then have "of_int (rne (x / pow2 (expo x - 52))) * pow2 (expo x - 52) \<le> 0"
      using pow2_pos [of "expo x - 52"] by (simp add: mult_le_0_iff)
    then show ?thesis by (simp add: fl_def)
  next
    case 2
    then show ?thesis by (simp add: fl_1)
  next
    case 3
    define e where "e = \<lfloor>log 2 \<bar>x\<bar>\<rfloor>"
    define E where "E = max e (- 1022)"
    define k where "k = E - 52"
    have x0: "x \<noteq> 0" using 3 by simp
    have lo: "pow2 e \<le> x" and hi: "x < pow2 (e + 1)"
      using floor_log_bounds [OF x0] 3 by (simp_all add: e_def)
    have "pow2 e < pow2 0" using lo 3 by (simp add: pow2_def)
    then have e: "e < 0" by (rule pow2_less_D)
    then have E: "E \<le> - 1" "e \<le> E" by (simp_all add: E_def)
    have "x / pow2 k = x * pow2 (- k)"
      using pow2_add [of k "- k"] pow2_pos [of k] by (simp add: field_simps pow2_def [of 0])
    also have "\<dots> \<le> pow2 (e + 1) * pow2 (- k)"
      using hi pow2_pos [of "- k"] by simp
    also have "\<dots> = pow2 (e + 1 - k)" using pow2_add [of "e + 1" "- k"] by simp
    also have "\<dots> \<le> pow2 53" using E by (intro pow2_mono) (simp add: k_def)
    also have "\<dots> = of_int (2 ^ 53)" by (simp add: pow2_def)
    finally have "rne (x / pow2 k) \<le> 2 ^ 53" by (rule rne_le)
    then have "(of_int (rne (x / pow2 k)) :: real) \<le> of_int (2 ^ 53)" by (simp only: of_int_le_iff)
    then have "of_int (rne (x / pow2 k)) * pow2 k \<le> of_int (2 ^ 53) * pow2 k"
      using pow2_pos [of k] by (simp only: mult_le_cancel_right_pos)
    also have "\<dots> = pow2 53 * pow2 k" by (simp add: pow2_def [of 53])
    also have "\<dots> = pow2 (E + 1)" using pow2_add [of 53 k] by (simp add: k_def add.commute)
    also have "\<dots> \<le> pow2 0" using E by (intro pow2_mono) simp
    finally have "of_int (rne (x / pow2 k)) * pow2 k \<le> 1" by (simp add: pow2_def)
    moreover have "expo x - 52 = k" by (simp add: expo_def e_def E_def k_def)
    ultimately show ?thesis using x0 by (simp add: fl_def)
  qed
qed

subsection \<open>The interpolation in doubles\<close>

lemma lerp_error:
  assumes "0 \<le> t" and "t \<le> 1"
  shows "\<bar>lerp a b t - ((1 - t) * a + t * b)\<bar> \<le> (\<bar>a\<bar> + \<bar>b\<bar>) / 2 ^ 50 + 1 / 2 ^ 1072"
proof -
  define h :: real where "h = 1 / 2 ^ 1075"
  define d where "d = fl (b - a)"
  define p where "p = fl (d * t)"
  define r where "r = fl (a + p)"
  have h: "0 < h" by (simp add: h_def)
  have h8: "1 / 2 ^ 1072 = 8 * h"
  proof -
    have "(2::real) ^ 1075 = 2 ^ 1072 * 2 ^ 3" by (simp only: power_add [symmetric]) simp
    then show ?thesis by (simp add: h_def)
  qed
  have e1: "\<bar>d - (b - a)\<bar> \<le> \<bar>b - a\<bar> / 2 ^ 53 + h"
    unfolding d_def h_def by (rule fl_rel)
  have e2: "\<bar>p - d * t\<bar> \<le> \<bar>d * t\<bar> / 2 ^ 53 + h"
    unfolding p_def h_def by (rule fl_rel)
  have e3: "\<bar>r - (a + p)\<bar> \<le> \<bar>a + p\<bar> / 2 ^ 53 + h"
    unfolding r_def h_def by (rule fl_rel)
  have dt: "\<bar>d * t\<bar> \<le> \<bar>d\<bar>"
    using assms by (simp add: abs_mult mult_left_le)
  have t1: "\<bar>t * (d - (b - a))\<bar> \<le> \<bar>d - (b - a)\<bar>"
    using assms by (simp add: abs_mult mult_left_le_one_le)
  have split: "r - ((1 - t) * a + t * b) = (r - (a + p)) + (p - d * t) + t * (d - (b - a))"
    by (simp add: algebra_simps)
  have "\<bar>r - ((1 - t) * a + t * b)\<bar> \<le> \<bar>r - (a + p)\<bar> + \<bar>p - d * t\<bar> + \<bar>t * (d - (b - a))\<bar>"
    unfolding split by linarith
  also have "\<dots> \<le> 8 * (\<bar>a\<bar> + \<bar>b\<bar>) / 2 ^ 53 + 8 * h"
  proof -
    define S where "S = \<bar>a\<bar> + \<bar>b\<bar>"
    have S: "0 \<le> S" "\<bar>a\<bar> \<le> S" "\<bar>b - a\<bar> \<le> S" by (simp_all add: S_def)
    have b1: "\<bar>d - (b - a)\<bar> \<le> S / 2 ^ 53 + h" using e1 S(3) by simp
    have ad: "\<bar>d\<bar> \<le> 2 * S + h" using b1 S by simp
    have b2: "\<bar>p - d * t\<bar> \<le> 2 * S / 2 ^ 53 + 2 * h" using e2 dt ad h by simp
    have ap: "\<bar>p\<bar> \<le> 4 * S + 3 * h"
    proof -
      have "\<bar>p\<bar> \<le> \<bar>p - d * t\<bar> + \<bar>d * t\<bar>" by linarith
      then show ?thesis using b2 dt ad S(1) h by simp
    qed
    have "\<bar>a + p\<bar> \<le> 5 * S + 3 * h" using ap S(2) by linarith
    then have b3: "\<bar>r - (a + p)\<bar> \<le> 5 * S / 2 ^ 53 + 4 * h" using e3 h by simp
    show ?thesis using b1 b2 b3 t1 h unfolding S_def [symmetric] by simp
  qed
  also have "\<dots> = (\<bar>a\<bar> + \<bar>b\<bar>) / 2 ^ 50 + 8 * h"
    by simp
  also have "\<dots> = (\<bar>a\<bar> + \<bar>b\<bar>) / 2 ^ 50 + 1 / 2 ^ 1072"
    by (simp only: h8)
  finally show ?thesis by (simp add: lerp_def r_def p_def d_def)
qed

lemma lerp_start: "fl a = a \<Longrightarrow> lerp a b 0 = a"
  by (simp add: lerp_def)

lemma lerp_end: "lerp a b 1 = fl (a + fl (fl (b - a)))"
  by (simp add: lerp_def)

subsection \<open>The distance over half the equator on the exact host\<close>

lemma fl_near:
  assumes "\<bar>x\<bar> \<le> 1024"
  shows "\<bar>fl x - x\<bar> \<le> 1 / 2 ^ 42"
proof -
  have "(1::real) / 2 ^ 1075 \<le> 1 / 2 ^ 43"
    by (intro divide_left_mono power_increasing) simp_all
  moreover have "\<bar>x\<bar> / 2 ^ 53 \<le> 1 / 2 ^ 43" using assms by simp
  moreover have "(1::real) / 2 ^ 43 + 1 / 2 ^ 43 = 1 / 2 ^ 42" by simp
  ultimately show ?thesis using fl_rel [of x] by linarith
qed

lemma half_turn_arg:
  "\<bar>fl (toRad (fl (180 - 0)) / 2) - pi / 2\<bar> \<le> 1 / 2 ^ 30"
proof -
  have pi4: "2 \<le> pi" "pi < 4" using pi_ge_two pi_less_4 by simp_all
  define P where "P = fl pi"
  define f1 where "f1 = fl (180 * P)"
  define f2 where "f2 = fl (f1 / 180)"
  define x where "x = fl (f2 / 2)"
  have P: "\<bar>P - pi\<bar> \<le> 1 / 2 ^ 42"
    unfolding P_def using pi4 by (intro fl_near) simp
  then have "\<bar>180 * P\<bar> \<le> 1024" using pi4 by (simp add: abs_if split: if_splits)
  then have "\<bar>f1 - 180 * P\<bar> \<le> 1 / 2 ^ 42" unfolding f1_def by (rule fl_near)
  then have f1: "\<bar>f1 - 180 * pi\<bar> \<le> 181 / 2 ^ 42" using P by (simp add: abs_if split: if_splits)
  then have f1': "\<bar>f1 / 180 - pi\<bar> \<le> 2 / 2 ^ 42" by (simp add: abs_if field_simps split: if_splits)
  then have "\<bar>f1 / 180\<bar> \<le> 1024" using pi4 by (simp add: abs_if split: if_splits)
  then have "\<bar>f2 - f1 / 180\<bar> \<le> 1 / 2 ^ 42" unfolding f2_def by (rule fl_near)
  then have f2: "\<bar>f2 - pi\<bar> \<le> 3 / 2 ^ 42" using f1' by (simp add: abs_if split: if_splits)
  then have "\<bar>f2 / 2\<bar> \<le> 1024" using pi4 by (simp add: abs_if split: if_splits)
  then have "\<bar>x - f2 / 2\<bar> \<le> 1 / 2 ^ 42" unfolding x_def by (rule fl_near)
  then have "\<bar>x - pi / 2\<bar> \<le> 3 / 2 ^ 42" using f2 by (simp add: abs_if split: if_splits)
  then have "\<bar>x - pi / 2\<bar> \<le> 1 / 2 ^ 30" by simp
  moreover have "fl (toRad (fl (180 - 0)) / 2) = x"
    by (simp add: toRad_def fl_180 x_def f2_def f1_def P_def)
  ultimately show ?thesis by simp
qed


lemma sin_near_half_pi:
  assumes "\<bar>x - pi / 2\<bar> \<le> 1 / 2 ^ 30"
  shows "3 / 4 \<le> (sin x)\<^sup>2" and "(sin x)\<^sup>2 \<le> 1"
proof -
  have pi2: "2 \<le> pi" by (rule pi_ge_two)
  define z where "z = \<bar>pi / 2 - x\<bar>"
  have z: "0 \<le> z" "z \<le> pi / 6" "pi / 6 \<le> pi"
    using assms pi2 by (simp_all add: z_def abs_if split: if_splits)
  have "sin x = cos (pi / 2 - x)" using sin_cos_eq [of x] by simp
  also have "\<dots> = cos z" by (simp add: z_def)
  finally have s: "sin x = cos z" .
  have "cos (pi / 6) \<le> cos z" using z by (intro cos_monotone_0_pi_le) simp_all
  then have c: "sqrt 3 / 2 \<le> sin x" by (simp add: cos_30 s)
  have "0 \<le> sqrt 3 / 2" by simp
  with c have "(sqrt 3 / 2)\<^sup>2 \<le> (sin x)\<^sup>2" by (rule power_mono)
  then show "3 / 4 \<le> (sin x)\<^sup>2" by (simp add: power_divide)
  show "(sin x)\<^sup>2 \<le> 1" using abs_sin_le_one [of x] by (simp add: abs_square_le_1)
qed

lemma tiny: "(1::real) / 2 ^ 1075 \<le> 1 / 2 ^ 53"
  by (intro divide_left_mono power_increasing) simp_all

lemma fl_rel_coarse: "\<bar>fl x - x\<bar> \<le> \<bar>x\<bar> / 2 ^ 53 + 1 / 2 ^ 53"
  using fl_rel [of x] tiny by linarith

lemma fl_lower:
  assumes "0 \<le> x"
  shows "x - x / 2 ^ 53 - 1 / 2 ^ 53 \<le> fl x"
  using fl_rel_coarse [of x] assms by (simp add: abs_if split: if_splits)

lemma haversine_half_equator:
  "\<exists>d. haversine exactMath (0, 0) (0, 180) = Some d \<and> 1 \<le> d"
proof -
  define q where "q = (sin (fl (toRad (fl (180 - 0)) / 2)))\<^sup>2"
  define a where "a = fl (fl q)"
  define w where "w = fl (1 - a)"
  define A where "A = atan2 (sqrt a) (sqrt w)"
  define c where "c = fl (2 * A)"
  have q: "3 / 4 \<le> q" "q \<le> 1"
    unfolding q_def using sin_near_half_pi [OF half_turn_arg] by simp_all
  have fq: "fl q \<le> 1" using q(2) by (rule fl_le_one)
  have "q - q / 2 ^ 53 - 1 / 2 ^ 53 \<le> fl q" using q by (intro fl_lower) simp
  then have fq': "5 / 8 \<le> fl q" using q by simp
  have a1: "a \<le> 1" unfolding a_def using fq by (rule fl_le_one)
  have "fl q - fl q / 2 ^ 53 - 1 / 2 ^ 53 \<le> a"
    unfolding a_def using fq' by (intro fl_lower) simp
  then have a2: "9 / 16 \<le> a" using fq' fq by simp
  have w0: "0 \<le> w" unfolding w_def using a1 by (intro fl_nonneg) simp
  have "\<bar>w - (1 - a)\<bar> \<le> \<bar>1 - a\<bar> / 2 ^ 53 + 1 / 2 ^ 53"
    unfolding w_def by (rule fl_rel_coarse)
  moreover have "\<bar>1 - a\<bar> / 2 ^ 53 \<le> 1 / 32" "(1::real) / 2 ^ 53 \<le> 1 / 32"
    using a1 a2 by simp_all
  ultimately have w1: "w < a" using a1 a2 by linarith
  have sq: "0 \<le> sqrt w" "sqrt w \<le> sqrt a" "0 < sqrt a"
    using w0 w1 a2 by simp_all
  have A: "pi / 4 \<le> A"
  proof (cases "sqrt w = 0")
    case True
    then show ?thesis using sq(3) by (simp add: A_def atan2_def)
  next
    case False
    then have p: "0 < sqrt w" using sq(1) by simp
    then have "1 \<le> sqrt a / sqrt w" using sq(2) by (simp add: field_simps)
    then have "arctan 1 \<le> arctan (sqrt a / sqrt w)" by (rule arctan_monotone')
    then show ?thesis using p by (simp add: A_def atan2_def arctan_one)
  qed
  then have A1: "1 \<le> 2 * A" using pi_ge_two by simp
  have "2 * A - 2 * A / 2 ^ 53 - 1 / 2 ^ 53 \<le> c"
    unfolding c_def using A1 by (intro fl_lower) simp
  then have c: "1 / 2 \<le> c" using A1 by simp
  have "6371000 * c - 6371000 * c / 2 ^ 53 - 1 / 2 ^ 53 \<le> fl (6371000 * c)"
    using c by (intro fl_lower) simp
  then have d: "1 \<le> fl (6371000 * c)" using c by simp
  have "haversine exactMath (0, 0) (0, 180) = Some (fl (6371000 * c))"
    using a2 w0
    by (simp add: haversine.simps exactMath_def Let_def toRad_def fl_1 c_def A_def w_def a_def q_def)
  then show ?thesis using d by simp
qed

subsection \<open>Evaluation of the sample runs\<close>

lemma loaded_route3:
  "loaded route3 =
     \<lparr>route = route3, index = 0, playing = False, speedMultiplier = 1, animRequest = None,
      segmentStartTime = None, segmentDuration = 2000, segmentFrom = None,
      segmentTo = None, startSimTime = None,
      fullPolyline = [(0, 0), (1, 1), (2, 2)], livePolyline = [],
      bikeMarker = (0, 0), playPauseBtn = Blank, speedValue = Times 1,
      latEl = Fixed 6 0, lngEl = Fixed 6 0, timestampEl = Iso 1000,
      elapsedEl = Lit ''00:00:00'', speedEl = Dash,
      progressEl = Lit ''1 / 3'', pending = [], nextHandle = 0, mathLib = exactMath\<rparr>"
  by (simp add: loaded_def initialize_def boot_def loadRoute_def updateInfo_def progressText_def showNat_small
        digit_def Let_def route3_def)

lemma playing3_eval:
  "playing3 =
     \<lparr>route = route3, index = 0, playing = True, speedMultiplier = 1, animRequest = Some 0,
      segmentStartTime = Some 1000, segmentDuration = 2000,
      segmentFrom = Some (route3 ! 0), segmentTo = Some (route3 ! 1),
      startSimTime = Some 1000, fullPolyline = [(0, 0), (1, 1), (2, 2)],
      livePolyline = [], bikeMarker = (0, 0), playPauseBtn = Lit ''Pause'',
      speedValue = Times 1, latEl = Fixed 6 0, lngEl = Fixed 6 0,
      timestampEl = Iso 1000, elapsedEl = Lit ''00:00:00'', speedEl = Dash,
      progressEl = Lit ''1 / 3'', pending = [0], nextHandle = 1, mathLib = exactMath\<rparr>"
  unfolding playing3_def loaded_route3
  by (simp add: playPauseClick_def startSegment_def requestTick_def requestAnimationFrame_def
        Let_def route3_def)

lemma paused3_eval:
  "paused3 = playing3\<lparr>playing := False, playPauseBtn := Lit ''Play'', pending := []\<rparr>"
  unfolding paused3_def playing3_eval
  by (simp add: playPauseClick_def cancelAnimationFrame_def route3_def)

lemma resumed3_eval:
  "resumed3 = playing3\<lparr>animRequest := Some 1, segmentStartTime := Some 6000,
                         startSimTime := Some 6000, pending := [1], nextHandle := 2\<rparr>"
  unfolding resumed3_def paused3_eval playing3_eval
  by (simp add: playPauseClick_def startSegment_def requestTick_def requestAnimationFrame_def
        Let_def route3_def)

lemma loaded_routeGap:
  "loaded routeGap =
     \<lparr>route = routeGap, index = 0, playing = False, speedMultiplier = 1, animRequest = None,
      segmentStartTime = None, segmentDuration = 2000, segmentFrom = None,
      segmentTo = None, startSimTime = None,
      fullPolyline = [(0, 0), (0, 180)], livePolyline = [],
      bikeMarker = (0, 0), playPauseBtn = Blank, speedValue = Times 1,
      latEl = Fixed 6 0, lngEl = Fixed 6 0, timestampEl = Dash,
      elapsedEl = Lit ''00:00:00'', speedEl = Dash,
      progressEl = Lit ''1 / 2'', pending = [], nextHandle = 0, mathLib = exactMath\<rparr>"
  by (simp add: loaded_def initialize_def boot_def loadRoute_def updateInfo_def progressText_def showNat_small
        digit_def Let_def routeGap_def)

lemma playingGap_eval:
  "playingGap =
     \<lparr>route = routeGap, index = 0, playing = True, speedMultiplier = 1, animRequest = Some 0,
      segmentStartTime = Some 1000, segmentDuration = 2000,
      segmentFrom = Some (routeGap ! 0), segmentTo = Some (routeGap ! 1),
      startSimTime = Some 1000, fullPolyline = [(0, 0), (0, 180)],
      livePolyline = [], bikeMarker = (0, 0), playPauseBtn = Lit ''Pause'',
      speedValue = Times 1, latEl = Fixed 6 0, lngEl = Fixed 6 0,
      timestampEl = Dash, elapsedEl = Lit ''00:00:00'', speedEl = Dash,
      progressEl = Lit ''1 / 2'', pending = [0], nextHandle = 1, mathLib = exactMath\<rparr>"
  unfolding playingGap_def loaded_routeGap
  by (simp add: playPauseClick_def startSegment_def requestTick_def requestAnimationFrame_def
        Let_def routeGap_def)

lemma loaded_route1:
  "loaded route1 =
     \<lparr>route = route1, index = 0, playing = False, speedMultiplier = 1, animRequest = None,
      segmentStartTime = None, segmentDuration = 2000, segmentFrom = None,
      segmentTo = None, startSimTime = None, fullPolyline = [(5, 7)],
      livePolyline = [], bikeMarker = (5, 7), playPauseBtn = Blank,
      speedValue = Times 1, latEl = Fixed 6 5, lngEl = Fixed 6 7,
      timestampEl = Iso 1000, elapsedEl = Lit ''00:00:00'', speedEl = Dash,
      progressEl = Lit ''1 / 1'', pending = [], nextHandle = 0, mathLib = exactMath\<rparr>"
  by (simp add: loaded_def initialize_def boot_def loadRoute_def updateInfo_def progressText_def showNat_small
        digit_def Let_def route1_def)

lemma fraction_playing3: "fraction now playing3 = min 1 ((now - 1000) / 2000)"
  by (simp add: playing3_eval fraction_def tickStart_def)

lemma fraction_playingGap: "fraction now playingGap = min 1 ((now - 1000) / 2000)"
  by (simp add: playingGap_eval fraction_def tickStart_def)

lemma open_playing3:
  "playing playing3" "segmentFrom playing3 = Some (route3 ! 0)" "segmentTo playing3 = Some (route3 ! 1)"
  by (simp_all add: playing3_eval)

lemma open_playingGap:
  "playing playingGap" "segmentFrom playingGap = Some (routeGap ! 0)"
  "segmentTo playingGap = Some (routeGap ! 1)"
  by (simp_all add: playingGap_eval)

lemma playingDrift_eval:
  "playing playingDrift" "segmentFrom playingDrift = Some (routeDrift ! 0)"
  "segmentTo playingDrift = Some (routeDrift ! 1)" "segmentDuration playingDrift = 2000"
  "segmentStartTime playingDrift = Some 1000"
  by (simp_all add: playingDrift_def loaded_def initialize_def boot_def loadRoute_def updateInfo_def
        playPauseClick_def startSegment_def requestTick_def requestAnimationFrame_def Let_def
        routeDrift_def)

lemma fraction_playingDrift: "fraction now playingDrift = min 1 ((now - 1000) / 2000)"
  by (simp add: playingDrift_eval fraction_def tickStart_def)

subsection \<open>One tick on an open segment\<close>

lemma animate_open:
  assumes "playing s" "segmentFrom s = Some a" "segmentTo s = Some b"
  shows "returned (animate clk now s)"
    and "bikeMarker (state_of (animate clk now s))
           = (lerp (lat a) (lat b) (fraction now s), lerp (lng a) (lng b) (fraction now s))"
    and "livePolyline (state_of (animate clk now s))
           = livePolyline s @ [(lerp (lat a) (lat b) (fraction now s), lerp (lng a) (lng b) (fraction now s))]"
    and "speedEl (state_of (animate clk now s)) = Kmh (segSpeed (mathLib s) a b)"
    and "progressEl (state_of (animate clk now s)) = Lit (progressText (index s) (length (route s)))"
    and "elapsedEl (state_of (animate clk now s)) = Lit (formatTime (now - msOf (startSimTime s)))"
    and "index (state_of (animate clk now s)) = (if 1 \<le> fraction now s then index s + 1 else index s)"
  using assms
  by (simp_all add: animate_def Let_def fraction_def tickStart_def segSpeed_def speedOver_def
        startSegment_def requestTick_def requestAnimationFrame_def split: option.splits prod.splits)

lemma animate_stays:
  assumes "playing s" "segmentFrom s = Some a" "segmentTo s = Some b" "fraction now s < 1"
  shows "playing (state_of (animate clk now s))
       \<and> segmentFrom (state_of (animate clk now s)) = Some a
       \<and> segmentTo (state_of (animate clk now s)) = Some b
       \<and> index (state_of (animate clk now s)) = index s
       \<and> mathLib (state_of (animate clk now s)) = mathLib s"
proof (cases "falsy (segmentStartTime s)")
  case True
  then show ?thesis
    using assms(1-3)
    by (simp add: animate_def Let_def requestTick_def requestAnimationFrame_def)
next
  case False
  then have "\<not> 1 \<le> (now - msOf (segmentStartTime s)) / segmentDuration s"
    using assms(4) by (simp add: fraction_def tickStart_def)
  then show ?thesis
    using assms(1-3) False
    by (simp add: animate_def Let_def requestTick_def requestAnimationFrame_def)
qed

subsection \<open>The invariant of the reachable states\<close>

lemma removeAll_only: "set xs \<subseteq> {h} \<Longrightarrow> removeAll h xs = []"
  by (induction xs) auto

lemma cancel_clears:
  assumes "set (pending s) \<subseteq> set_option (animRequest s)"
  shows "pending (cancelAnimationFrame (animRequest s) s) = []"
proof (cases "animRequest s")
  case None
  then show ?thesis using assms by (simp add: cancelAnimationFrame_def)
next
  case (Some h)
  then show ?thesis using assms by (simp add: cancelAnimationFrame_def removeAll_only)
qed

lemma startSegment_inv:
  assumes "0 < speedMultiplier s" "0 < segmentDuration s"
  shows "0 < segmentDuration (startSegment clk i s)"
    and "speedMultiplier (startSegment clk i s) = speedMultiplier s"
    and "pending (startSegment clk i s) = pending s"
    and "animRequest (startSegment clk i s) = animRequest s"
    and "route (startSegment clk i s) = route s"
    and "index (startSegment clk i s) = index s"
    and "playing (startSegment clk i s) = (playing s \<and> i + 1 < length (route s))"
    and "i = index s \<Longrightarrow> i + 1 < length (route s) \<Longrightarrow> segmentOpen (startSegment clk i s)"
  using assms
  by (auto simp: startSegment_def Let_def segmentOpen_def split: option.splits)

lemma requestTick_inv:
  "speedMultiplier (requestTick s) = speedMultiplier s"
  "segmentDuration (requestTick s) = segmentDuration s"
  "playing (requestTick s) = playing s"
  "segmentOpen (requestTick s) = segmentOpen s"
  "pending (requestTick s) = pending s @ [nextHandle s]"
  "animRequest (requestTick s) = Some (nextHandle s)"
  "route (requestTick s) = route s" "index (requestTick s) = index s"
  by (simp_all add: requestTick_def requestAnimationFrame_def segmentOpen_def)

lemma reset_inv:
  assumes "invariant s"
  shows "invariant (state_of (resetSimulation s))"
    and "pending (state_of (resetSimulation s)) = []"
    and "\<not> playing (state_of (resetSimulation s))"
proof -
  have p: "pending (cancelAnimationFrame (animRequest s) s) = []"
    using assms cancel_clears by (simp add: invariant_def)
  then have q: "pending (cancelAnimationFrame (animRequest s) (s\<lparr>playing := False\<rparr>)) = []"
    by (simp add: cancelAnimationFrame_def split: option.splits)
  show "pending (state_of (resetSimulation s)) = []"
    using q by (simp add: resetSimulation_def updateInfo_def Let_def cancelAnimationFrame_def
        split: option.splits)
  show "\<not> playing (state_of (resetSimulation s))"
    by (simp add: resetSimulation_def updateInfo_def Let_def cancelAnimationFrame_def
        split: option.splits)
  show "invariant (state_of (resetSimulation s))"
    using q assms
    by (simp add: invariant_def resetSimulation_def updateInfo_def Let_def cancelAnimationFrame_def
        split: option.splits)
qed


lemma reset_fields:
  "speedMultiplier (state_of (resetSimulation s)) = speedMultiplier s"
  "segmentDuration (state_of (resetSimulation s)) = segmentDuration s"
  "route (state_of (resetSimulation s)) = route s"
  "index (state_of (resetSimulation s)) = 0"
  by (simp_all add: resetSimulation_def updateInfo_def Let_def cancelAnimationFrame_def
        split: option.splits)

lemma reset_returns: "route s \<noteq> [] \<Longrightarrow> returned (resetSimulation s)"
  by (cases "animRequest s")
     (simp_all add: resetSimulation_def updateInfo_def Let_def cancelAnimationFrame_def)

lemma play_step_inv:
  assumes "0 < speedMultiplier s1" "0 < segmentDuration s1" "pending s1 = []" "\<not> playing s1"
  shows "invariant (requestTick (startSegment clk (index s1)
           (s1\<lparr>playing := True, playPauseBtn := Lit ''Pause'', startSimTime := Some clk\<rparr>)))"
proof -
  define s2 where "s2 = s1\<lparr>playing := True, playPauseBtn := Lit ''Pause'', startSimTime := Some clk\<rparr>"
  have s2: "0 < speedMultiplier s2" "0 < segmentDuration s2" "pending s2 = []" "playing s2"
    "index s2 = index s1"
    using assms by (simp_all add: s2_def)
  note st = startSegment_inv [OF s2(1,2), where clk = clk and i = "index s2"]
  show ?thesis
    unfolding s2_def [symmetric] s2(5) [symmetric]
    using st s2 by (auto simp: invariant_def requestTick_inv)
qed

lemma click_inv:
  assumes "invariant s"
  shows "invariant (state_of (playPauseClick clk s))"
proof (cases "route s = []")
  case True
  then show ?thesis using assms by (simp add: playPauseClick_def)
next
  case ne: False
  show ?thesis
  proof (cases "playing s")
    case True
    have "pending (cancelAnimationFrame (animRequest s) s) = []"
      using assms cancel_clears by (simp add: invariant_def)
    then show ?thesis using True ne assms
      by (auto simp: playPauseClick_def invariant_def cancelAnimationFrame_def split: option.splits)
  next
    case np: False
    show ?thesis
    proof (cases "int (index s) \<ge> int (length (route s)) - 1")
      case True
      obtain s1 where r: "resetSimulation s = Done s1"
        using reset_returns [OF ne] by (cases "resetSimulation s") simp_all
      have "0 < speedMultiplier s1" "0 < segmentDuration s1" "pending s1 = []" "\<not> playing s1"
        using reset_inv [OF assms] reset_fields [of s] assms r by (simp_all add: invariant_def)
      from play_step_inv [OF this, of clk] show ?thesis
        using True ne np r by (simp add: playPauseClick_def Let_def)
    next
      case False
      then have "pending s = []" using assms np by (simp add: invariant_def)
      with assms np have "0 < speedMultiplier s" "0 < segmentDuration s" "pending s = []" "\<not> playing s"
        by (simp_all add: invariant_def)
      from play_step_inv [OF this, of clk] show ?thesis
        using False ne np by (simp add: playPauseClick_def Let_def)
    qed
  qed
qed

lemma speed_inv: "invariant s \<Longrightarrow> 0 < v \<Longrightarrow> invariant (speedInput v s)"
  by (simp add: invariant_def speedInput_def Let_def segmentOpen_def)

lemma start_inv: "invariant (state_of (initialize pts (boot\<lparr>mathLib := M\<rparr>)))"
  by (simp add: invariant_def initialize_def loadRoute_def updateInfo_def boot_def Let_def)


lemma animate_inv:
  assumes "0 < speedMultiplier s" "0 < segmentDuration s" "playing s \<longrightarrow> segmentOpen s"
    and "pending s = []"
  shows "invariant (state_of (animate clk now s))"
proof (cases "playing s")
  case False
  then show ?thesis using assms by (simp add: animate_def invariant_def)
next
  case True
  then have o: "index s + 1 < length (route s)" "segmentFrom s = Some (route s ! index s)"
    "segmentTo s = Some (route s ! (index s + 1))"
    using assms(3) by (simp_all add: segmentOpen_def)
  show ?thesis
    using True o assms(1,2,4)
    by (auto simp: animate_def Let_def invariant_def segmentOpen_def startSegment_def requestTick_def
          requestAnimationFrame_def split: option.splits)
qed

lemma frame_inv:
  assumes "invariant s" and "h \<in> set (pending s)"
  shows "invariant (state_of (animate clk now (s\<lparr>pending := removeAll h (pending s)\<rparr>)))"
proof -
  have "set (pending s) \<subseteq> {h}"
    using assms by (cases "animRequest s") (auto simp: invariant_def)
  then have "removeAll h (pending s) = []" by (rule removeAll_only)
  then show ?thesis
    using assms(1) by (intro animate_inv) (simp_all add: invariant_def segmentOpen_def)
qed

lemma reachable_invariant: "reachable s \<Longrightarrow> invariant s"
proof (induction rule: reachable.induct)
  case (start pts M)
  show ?case by (rule start_inv)
next
  case (click s clk)
  then show ?case by (simp add: click_inv)
next
  case (speed s v)
  then show ?case by (simp add: speed_inv)
next
  case (reset s)
  then show ?case by (simp add: reset_inv(1))
next
  case (frame s h clk now)
  then show ?case by (simp add: frame_inv)
qed

lemma reachable_tick_returns:
  assumes "reachable s"
  shows "returned (animate clk now s)"
proof (cases "playing s")
  case False
  then show ?thesis by (simp add: animate_def)
next
  case True
  then have "segmentOpen s" using reachable_invariant [OF assms] by (simp add: invariant_def)
  then show ?thesis using True animate_open(1) by (simp add: segmentOpen_def)
qed

lemma reachable_playing_open:
  assumes "reachable s" and "playing s"
  shows "segmentFrom s = Some (route s ! index s) \<and> segmentTo s = Some (route s ! (index s + 1))
       \<and> index s + 1 < length (route s) \<and> 0 < segmentDuration s"
  using reachable_invariant [OF assms(1)] assms(2) by (simp add: invariant_def segmentOpen_def)

lemma reachable_one_request: "reachable s \<Longrightarrow> length (pending s) \<le> 1"
  using reachable_invariant [of s] by (simp add: invariant_def)

lemma reachable_reset_pending: "reachable s \<Longrightarrow> pending (state_of (resetSimulation s)) = []"
  using reachable_invariant [of s] reset_inv(2) by simp

subsection \<open>Opening a segment\<close>

text \<open>
  Claim C1. Opening the segment from waypoint \<open>i\<close> at a positive speed multiplier \<open>m\<close>:
  when both waypoints carry a time stamp and the difference \<open>t2 - t1\<close> is positive, the
  duration is \<open>(t2 - t1) / m\<close>; when a time stamp is missing or the difference is not
  positive, it is \<open>2000 / m\<close>; in every case the duration is positive.
\<close>

theorem startSegment_duration:
  assumes "int i < int (length (route s)) - 1" and "0 < speedMultiplier s"
  shows "(\<forall>t1 t2. timestamp (route s ! i) = Some t1 \<and> timestamp (route s ! (i + 1)) = Some t2
              \<and> 0 < t2 - t1
            \<longrightarrow> segmentDuration (startSegment clk i s) = (t2 - t1) / speedMultiplier s)
       \<and> (timestamp (route s ! i) = None \<or> timestamp (route s ! (i + 1)) = None
            \<or> (\<exists>t1 t2. timestamp (route s ! i) = Some t1 \<and> timestamp (route s ! (i + 1)) = Some t2
                  \<and> t2 - t1 \<le> 0)
            \<longrightarrow> segmentDuration (startSegment clk i s) = 2000 / speedMultiplier s)
       \<and> 0 < segmentDuration (startSegment clk i s)
       \<and> segmentFrom (startSegment clk i s) = Some (route s ! i)
       \<and> segmentTo (startSegment clk i s) = Some (route s ! (i + 1))"
  using assms by (auto simp: startSegment_def Let_def split: option.splits)

theorem startSegment_duration_witness:
  "int 0 < int (length (route (speedInput 2 (loaded route3)))) - 1
   \<and> 0 < speedMultiplier (speedInput 2 (loaded route3))
   \<and> segmentDuration (startSegment 0 0 (speedInput 2 (loaded route3))) = 1000
   \<and> 0 < segmentDuration (startSegment 0 0 (speedInput 2 (loaded route3)))"
  using startSegment_duration [of 0 "speedInput 2 (loaded route3)" 0]
  unfolding loaded_route3
  by (simp add: speedInput_def startSegment_def Let_def route3_def)

subsection \<open>The interpolated position\<close>

text \<open>The interpolation between the two close waypoints at the fraction 1, operation by operation.\<close>

lemma drift_lat:
  "lerp (- 5404319552844595 / 2 ^ 54) (1152921504606847 / 2 ^ 60) 1 = 9007199254741 / 2 ^ 53"
proof -
  define A :: real where "A = - 5404319552844595 / 2 ^ 54"
  define B :: real where "B = 1152921504606847 / 2 ^ 60"
  define D :: real where "D = 5422333951354077 / 2 ^ 54"
  define R :: real where "R = 9007199254741 / 2 ^ 53"
  have 1: "fl (B - A) = D"
    unfolding A_def B_def D_def
    by (subst fl_eval [where e = "- 2" and k = "- 54"]) (simp_all add: pow2_def rne_def)
  have 2: "fl D = D"
    unfolding D_def
    by (rule fl_exact [where e = "- 2" and k = "- 54" and n = 5422333951354077])
       (simp_all add: pow2_def)
  have 3: "fl (A + D) = R"
    unfolding A_def D_def R_def
    by (subst fl_eval [where e = "- 10" and k = "- 62"]) (simp_all add: pow2_def rne_def)
  have "lerp A B 1 = R" by (simp only: lerp_end 1 2 3)
  then show ?thesis unfolding A_def B_def R_def .
qed

lemma drift_lng:
  "lerp (- 1152921504606847 / 2 ^ 61) (5534023222112865 / 2 ^ 64) 1 = 172938225691027 / 2 ^ 59"
proof -
  define A :: real where "A = - 1152921504606847 / 2 ^ 61"
  define B :: real where "B = 5534023222112865 / 2 ^ 64"
  define D :: real where "D = 1844674407370955 / 2 ^ 61"
  define R :: real where "R = 172938225691027 / 2 ^ 59"
  have 1: "fl (B - A) = D"
    unfolding A_def B_def D_def
    by (subst fl_eval [where e = "- 11" and k = "- 63"]) (simp_all add: pow2_def rne_def)
  have 2: "fl D = D"
    unfolding D_def
    by (rule fl_exact [where e = "- 11" and k = "- 63" and n = 7378697629483820])
       (simp_all add: pow2_def)
  have 3: "fl (A + D) = R"
    unfolding A_def D_def R_def
    by (subst fl_eval [where e = "- 12" and k = "- 64"]) (simp_all add: pow2_def rne_def)
  have "lerp A B 1 = R" by (simp only: lerp_end 1 2 3)
  then show ?thesis unfolding A_def B_def R_def .
qed

lemma coordinate_drift:
  "coordinate (- 5404319552844595 / 2 ^ 54)" "coordinate (- 1152921504606847 / 2 ^ 61)"
  "coordinate (1152921504606847 / 2 ^ 60)" "coordinate (5534023222112865 / 2 ^ 64)"
proof -
  have "fl (- 5404319552844595 / 2 ^ 54) = - 5404319552844595 / 2 ^ 54"
    by (rule fl_exact [where e = "- 2" and k = "- 54" and n = "- 5404319552844595"])
       (simp_all add: pow2_def)
  then show "coordinate (- 5404319552844595 / 2 ^ 54)" by (simp add: coordinate_def)
  have "fl (- 1152921504606847 / 2 ^ 61) = - 1152921504606847 / 2 ^ 61"
    by (rule fl_exact [where e = "- 11" and k = "- 63" and n = "- 4611686018427388"])
       (simp_all add: pow2_def)
  then show "coordinate (- 1152921504606847 / 2 ^ 61)" by (simp add: coordinate_def)
  have "fl (1152921504606847 / 2 ^ 60) = 1152921504606847 / 2 ^ 60"
    by (rule fl_exact [where e = "- 10" and k = "- 62" and n = 4611686018427388])
       (simp_all add: pow2_def)
  then show "coordinate (1152921504606847 / 2 ^ 60)" by (simp add: coordinate_def)
  have "fl (5534023222112865 / 2 ^ 64) = 5534023222112865 / 2 ^ 64"
    by (rule fl_exact [where e = "- 12" and k = "- 64" and n = 5534023222112865])
       (simp_all add: pow2_def)
  then show "coordinate (5534023222112865 / 2 ^ 64)" by (simp add: coordinate_def)
qed

lemma coordinate_small: "coordinate 0" "coordinate 1"
  by (simp_all add: coordinate_def fl_1)

text \<open>
  Claim C2, as amended. A tick on the segment from \<open>a\<close> to \<open>b\<close> at a fraction \<open>t\<close> in
  \<open>[0, 1]\<close> puts the marker (and the end of the live trail) at
  \<open>(lerp (lat a) (lat b) t, lerp (lng a) (lng b) t)\<close>, where \<open>lerp x y t\<close> is \<open>x + (y - x) * t\<close>
  in double arithmetic. Each coordinate of it is within \<open>(\<bar>x\<bar> + \<bar>y\<bar>) / 2 ^ 50 + 1 / 2 ^ 1072\<close>
  of the point \<open>(1 - t) x + t y\<close> of the straight line between the waypoints. At \<open>t = 0\<close> the
  position is the start waypoint exactly; at \<open>t = 1\<close> it is the end waypoint up to that
  rounding error.
\<close>

theorem animate_position:
  assumes "playing s" and "segmentFrom s = Some a" and "segmentTo s = Some b"
    and "t = fraction now s" and "segmentDuration s \<noteq> 0" and "0 \<le> t" and "t \<le> 1"
    and "coordinate (lat a)" and "coordinate (lng a)"
    and "coordinate (lat b)" and "coordinate (lng b)"
  shows "returned (animate clk now s)
       \<and> bikeMarker (state_of (animate clk now s)) = (lerp (lat a) (lat b) t, lerp (lng a) (lng b) t)
       \<and> last (livePolyline (state_of (animate clk now s))) = (lerp (lat a) (lat b) t, lerp (lng a) (lng b) t)
       \<and> lerp (lat a) (lat b) t = fl (lat a + fl (fl (lat b - lat a) * t))
       \<and> lerp (lng a) (lng b) t = fl (lng a + fl (fl (lng b - lng a) * t))
       \<and> \<bar>lerp (lat a) (lat b) t - ((1 - t) * lat a + t * lat b)\<bar>
            \<le> (\<bar>lat a\<bar> + \<bar>lat b\<bar>) / 2 ^ 50 + 1 / 2 ^ 1072
       \<and> \<bar>lerp (lng a) (lng b) t - ((1 - t) * lng a + t * lng b)\<bar>
            \<le> (\<bar>lng a\<bar> + \<bar>lng b\<bar>) / 2 ^ 50 + 1 / 2 ^ 1072
       \<and> (t = 0 \<longrightarrow> bikeMarker (state_of (animate clk now s)) = (lat a, lng a))
       \<and> (t = 1 \<longrightarrow>
             \<bar>fst (bikeMarker (state_of (animate clk now s))) - lat b\<bar>
               \<le> (\<bar>lat a\<bar> + \<bar>lat b\<bar>) / 2 ^ 50 + 1 / 2 ^ 1072
           \<and> \<bar>snd (bikeMarker (state_of (animate clk now s))) - lng b\<bar>
               \<le> (\<bar>lng a\<bar> + \<bar>lng b\<bar>) / 2 ^ 50 + 1 / 2 ^ 1072)"
proof -
  note tick = animate_open [OF assms(1-3), of clk now]
  have m: "bikeMarker (state_of (animate clk now s)) = (lerp (lat a) (lat b) t, lerp (lng a) (lng b) t)"
    using tick(2) assms(4) by simp
  have l: "last (livePolyline (state_of (animate clk now s)))
             = (lerp (lat a) (lat b) t, lerp (lng a) (lng b) t)"
    using tick(3) assms(4) by simp
  have e: "\<bar>lerp (lat a) (lat b) t - ((1 - t) * lat a + t * lat b)\<bar>
             \<le> (\<bar>lat a\<bar> + \<bar>lat b\<bar>) / 2 ^ 50 + 1 / 2 ^ 1072"
          "\<bar>lerp (lng a) (lng b) t - ((1 - t) * lng a + t * lng b)\<bar>
             \<le> (\<bar>lng a\<bar> + \<bar>lng b\<bar>) / 2 ^ 50 + 1 / 2 ^ 1072"
    using assms(6,7) by (rule lerp_error)+
  have z: "t = 0 \<longrightarrow> bikeMarker (state_of (animate clk now s)) = (lat a, lng a)"
    using m assms(8,9) by (simp add: coordinate_def lerp_start)
  have o: "t = 1 \<longrightarrow>
             \<bar>fst (bikeMarker (state_of (animate clk now s))) - lat b\<bar>
               \<le> (\<bar>lat a\<bar> + \<bar>lat b\<bar>) / 2 ^ 50 + 1 / 2 ^ 1072
           \<and> \<bar>snd (bikeMarker (state_of (animate clk now s))) - lng b\<bar>
               \<le> (\<bar>lng a\<bar> + \<bar>lng b\<bar>) / 2 ^ 50 + 1 / 2 ^ 1072"
  proof
    assume "t = 1"
    then show "\<bar>fst (bikeMarker (state_of (animate clk now s))) - lat b\<bar>
               \<le> (\<bar>lat a\<bar> + \<bar>lat b\<bar>) / 2 ^ 50 + 1 / 2 ^ 1072
           \<and> \<bar>snd (bikeMarker (state_of (animate clk now s))) - lng b\<bar>
               \<le> (\<bar>lng a\<bar> + \<bar>lng b\<bar>) / 2 ^ 50 + 1 / 2 ^ 1072"
      using e m by simp
  qed
  have d: "lerp (lat a) (lat b) t = fl (lat a + fl (fl (lat b - lat a) * t))"
          "lerp (lng a) (lng b) t = fl (lng a + fl (fl (lng b - lng a) * t))"
    by (simp_all only: lerp_def)
  show ?thesis using tick(1) m l d e z o by blast
qed

theorem animate_position_witness:
  "playing playing3 \<and> segmentFrom playing3 = Some (route3 ! 0) \<and> segmentTo playing3 = Some (route3 ! 1)
   \<and> segmentDuration playing3 \<noteq> 0
   \<and> coordinate (lat (route3 ! 0)) \<and> coordinate (lng (route3 ! 0))
   \<and> coordinate (lat (route3 ! 1)) \<and> coordinate (lng (route3 ! 1))
   \<and> 1 / 2 = fraction 2000 playing3
   \<and> bikeMarker (state_of (animate 2000 2000 playing3)) = (1 / 2, 1 / 2)
   \<and> 0 = fraction 1000 playing3
   \<and> bikeMarker (state_of (animate 1000 1000 playing3)) = (0, 0)"
proof -
  have r: "lat (route3 ! 0) = 0" "lng (route3 ! 0) = 0" "lat (route3 ! 1) = 1" "lng (route3 ! 1) = 1"
    by (simp_all add: route3_def)
  have c: "coordinate (lat (route3 ! 0))" "coordinate (lng (route3 ! 0))"
          "coordinate (lat (route3 ! 1))" "coordinate (lng (route3 ! 1))"
    unfolding r by (rule coordinate_small)+
  have d: "segmentDuration playing3 \<noteq> 0" by (simp add: playing3_eval)
  have f: "1 / 2 = fraction 2000 playing3" "0 = fraction 1000 playing3"
    by (simp_all add: fraction_playing3)
  have p: "0 \<le> (1 / 2 :: real)" "(1 / 2 :: real) \<le> 1" "0 \<le> (0 :: real)" "(0 :: real) \<le> 1"
    by simp_all
  have v: "lerp 0 1 (1 / 2) = 1 / 2" by (simp add: lerp_def fl_1 fl_half)
  note h = animate_position [OF open_playing3 f(1) d p(1,2) c, of 2000]
  note z = animate_position [OF open_playing3 f(2) d p(3,4) c, of 1000]
  have "bikeMarker (state_of (animate 2000 2000 playing3)) = (1 / 2, 1 / 2)"
    using h [THEN conjunct2, THEN conjunct1] unfolding r v .
  moreover have "bikeMarker (state_of (animate 1000 1000 playing3)) = (0, 0)"
  proof -
    have "0 = (0::real) \<longrightarrow>
            bikeMarker (state_of (animate 1000 1000 playing3)) = (lat (route3 ! 0), lng (route3 ! 0))"
      using z by blast
    then show ?thesis by (simp add: r)
  qed
  ultimately show ?thesis
    using c d f open_playing3 by blast
qed

theorem endpoint_drift_counterexample:
  "playing playingDrift \<and> segmentFrom playingDrift = Some (routeDrift ! 0)
   \<and> segmentTo playingDrift = Some (routeDrift ! 1)
   \<and> coordinate (lat (routeDrift ! 0)) \<and> coordinate (lng (routeDrift ! 0))
   \<and> coordinate (lat (routeDrift ! 1)) \<and> coordinate (lng (routeDrift ! 1))
   \<and> fraction 3000 playingDrift = 1
   \<and> bikeMarker (state_of (animate 3000 3000 playingDrift))
        = (9007199254741 / 2 ^ 53, 172938225691027 / 2 ^ 59)
   \<and> bikeMarker (state_of (animate 3000 3000 playingDrift))
        \<noteq> (lat (routeDrift ! 1), lng (routeDrift ! 1))
   \<and> max (lat (routeDrift ! 0)) (lat (routeDrift ! 1))
        < fst (bikeMarker (state_of (animate 3000 3000 playingDrift)))"
proof -
  have r: "lat (routeDrift ! 0) = - 5404319552844595 / 2 ^ 54"
          "lng (routeDrift ! 0) = - 1152921504606847 / 2 ^ 61"
          "lat (routeDrift ! 1) = 1152921504606847 / 2 ^ 60"
          "lng (routeDrift ! 1) = 5534023222112865 / 2 ^ 64"
    by (simp_all add: routeDrift_def)
  have f: "fraction 3000 playingDrift = 1" by (simp add: fraction_playingDrift)
  have m: "bikeMarker (state_of (animate 3000 3000 playingDrift))
             = (9007199254741 / 2 ^ 53, 172938225691027 / 2 ^ 59)"
    using animate_open(2) [OF playingDrift_eval(1-3), of 3000 3000]
    unfolding f r drift_lat drift_lng .
  have c: "coordinate (lat (routeDrift ! 0))" "coordinate (lng (routeDrift ! 0))"
          "coordinate (lat (routeDrift ! 1))" "coordinate (lng (routeDrift ! 1))"
    unfolding r by (rule coordinate_drift)+
  have n: "bikeMarker (state_of (animate 3000 3000 playingDrift))
             \<noteq> (lat (routeDrift ! 1), lng (routeDrift ! 1))"
    unfolding m r by simp
  have o: "max (lat (routeDrift ! 0)) (lat (routeDrift ! 1))
             < fst (bikeMarker (state_of (animate 3000 3000 playingDrift)))"
    unfolding m r by simp
  show ?thesis
    using playingDrift_eval(1-3) c f m n o by blast
qed

subsection \<open>The progress field\<close>

text \<open>
  A tick writes the progress field from the index it starts with, before it advances the
  index (\<open>animate_open\<close>); the stationary display writes it from the index it is given.
\<close>

lemma updateInfo_progress:
  "i < length (route s) \<Longrightarrow>
     progressEl (state_of (updateInfo i s)) = Lit (progressText i (length (route s)))"
  by (simp add: updateInfo_def Let_def)

text \<open>
  The tick that ends the last segment of a route of \<open>n\<close> waypoints: the marker is at the
  end of the segment, the index is \<open>n - 1\<close>, playback has stopped, and the field was
  written from the index \<open>n - 2\<close>.
\<close>

lemma animate_last:
  assumes "playing s" "segmentFrom s = Some a" "segmentTo s = Some b" "1 \<le> fraction now s"
    and "index s + 2 = length (route s)"
  shows "\<not> playing (state_of (animate clk now s))
       \<and> index (state_of (animate clk now s)) = index s + 1
       \<and> bikeMarker (state_of (animate clk now s)) = (lerp (lat a) (lat b) 1, lerp (lng a) (lng b) 1)
       \<and> progressEl (state_of (animate clk now s)) = Lit (progressText (index s) (length (route s)))"
proof -
  have "\<not> falsy (segmentStartTime s)"
    using assms(4) by (auto simp: fraction_def tickStart_def)
  moreover from this have "1 \<le> (now - msOf (segmentStartTime s)) / segmentDuration s"
    using assms(4) by (simp add: fraction_def tickStart_def)
  ultimately show ?thesis
    using assms(1-3,5)
    by (simp add: animate_def Let_def)
qed

lemma finishedGap_eval:
  "index finishedGap = 1" "\<not> playing finishedGap" "route finishedGap = routeGap"
  "progressEl finishedGap = Lit ''1 / 2''" "bikeMarker finishedGap = (0, 180)"
  unfolding finishedGap_def playingGap_eval
  by (simp_all add: animate_def tickStart_def Let_def routeGap_def lerp_def fl_180 progressText_def
        showNat_small digit_def)

text \<open>
  Claim C3. The progress field is to show \<open>(i + 1) / n\<close> for the current index \<open>i\<close>, and
  \<open>n / n\<close> at the final waypoint. On the route of two waypoints without time stamps, play
  at clock reading 1000 and a tick at 3000 end the only segment: the marker is on the final
  waypoint, the index is 1 and playback has stopped, and the field still reads \<open>1 / 2\<close>,
  where the current index would give \<open>2 / 2\<close>.
\<close>

theorem final_tick_progress:
  "length (route finishedGap) = 2
   \<and> playing playingGap \<and> index playingGap = 0 \<and> fraction 3000 playingGap = 1
   \<and> returned (animate 3000 3000 playingGap)
   \<and> index finishedGap = 1 \<and> \<not> playing finishedGap
   \<and> bikeMarker finishedGap = (0, 180)
   \<and> progressEl finishedGap = Lit ''1 / 2''
   \<and> progressText (index finishedGap) (length (route finishedGap)) = ''2 / 2''"
  using animate_open(1) [OF open_playingGap, of 3000 3000]
  by (simp add: finishedGap_eval fraction_playingGap open_playingGap routeGap_def progressText_def
        showNat_small digit_def)
     (simp add: playingGap_eval)

subsection \<open>The session clock\<close>

text \<open>
  Claim C4, as amended. With a loaded route, the click that starts playback sets the
  session-start reference to the clock reading of that click, whether it starts from rest
  or resumes from a pause; the click that pauses leaves the reference unchanged.
\<close>

theorem play_anchors_session_clock:
  assumes "route s \<noteq> []"
  shows "returned (playPauseClick clk s)
       \<and> startSimTime (state_of (playPauseClick clk s))
           = (if playing s then startSimTime s else Some clk)
       \<and> playing (state_of (playPauseClick clk s))
           = (\<not> playing s \<and> 1 < length (route s))"
proof (cases "playing s")
  case True
  then show ?thesis using assms by (simp add: playPauseClick_def cancelAnimationFrame_def split: option.splits)
next
  case False
  show ?thesis
  proof (cases "int (index s) \<ge> int (length (route s)) - 1")
    case True
    then show ?thesis using assms False
      by (cases "animRequest s")
         (auto simp: playPauseClick_def resetSimulation_def updateInfo_def startSegment_def requestTick_def
            requestAnimationFrame_def cancelAnimationFrame_def Let_def split: option.splits)
  next
    case nt: False
    then show ?thesis using assms False
      by (auto simp: playPauseClick_def startSegment_def requestTick_def
            requestAnimationFrame_def Let_def split: option.splits)
  qed
qed

theorem play_anchors_session_clock_witness:
  "route paused3 \<noteq> [] \<and> \<not> playing paused3 \<and> startSimTime paused3 = Some 1000
   \<and> startSimTime (state_of (playPauseClick 6000 paused3)) = Some 6000
   \<and> playing (state_of (playPauseClick 6000 paused3))"
  using play_anchors_session_clock [of paused3 6000]
  by (simp add: paused3_eval playing3_eval route3_def)

theorem resume_reanchors_counterexample:
  "playing playing3 \<and> startSimTime playing3 = Some 1000
   \<and> \<not> playing paused3 \<and> startSimTime paused3 = Some 1000
   \<and> playing resumed3 \<and> startSimTime resumed3 = Some 6000
   \<and> startSimTime resumed3 \<noteq> startSimTime playing3
   \<and> elapsedEl (state_of (animate 6000 6000 resumed3)) = Lit ''00:00:00''"
proof -
  have "playing resumed3" "segmentFrom resumed3 = Some (route3 ! 0)"
       "segmentTo resumed3 = Some (route3 ! 1)"
    by (simp_all add: resumed3_eval playing3_eval)
  from animate_open(6) [OF this, of 6000 6000]
  have "elapsedEl (state_of (animate 6000 6000 resumed3)) = Lit ''00:00:00''"
    by (simp add: resumed3_eval playing3_eval formatTime_def jsRem_def showInt_def padStart_def
          showNat_small digit_def)
  then show ?thesis
    by (simp add: resumed3_eval paused3_eval) (simp add: playing3_eval)
qed

subsection \<open>The interpolation fraction\<close>

text \<open>
  Claim C5, as amended. The fraction of a tick is \<open>min 1 ((now - segmentStartTime) / segmentDuration)\<close>
  (zero when the start time is unset): it never exceeds 1; with a positive duration it is
  non-negative when \<open>now\<close> is not before the start time, and negative when \<open>now\<close> is
  before it, since the script applies no lower bound.
\<close>

theorem animate_fraction:
  assumes "playing s" and "segmentFrom s = Some a" and "segmentTo s = Some b"
    and "segmentDuration s \<noteq> 0"
  shows "bikeMarker (state_of (animate clk now s))
           = (lerp (lat a) (lat b) (fraction now s), lerp (lng a) (lng b) (fraction now s))
       \<and> (\<forall>st. segmentStartTime s = Some st \<and> st \<noteq> 0
             \<longrightarrow> fraction now s = min 1 ((now - st) / segmentDuration s))
       \<and> (segmentStartTime s = None \<or> segmentStartTime s = Some 0 \<longrightarrow> fraction now s = 0)
       \<and> fraction now s \<le> 1
       \<and> (\<forall>st. segmentStartTime s = Some st \<and> st \<noteq> 0 \<and> st \<le> now \<and> 0 < segmentDuration s
             \<longrightarrow> 0 \<le> fraction now s)
       \<and> (\<forall>st. segmentStartTime s = Some st \<and> st \<noteq> 0 \<and> now < st \<and> 0 < segmentDuration s
             \<longrightarrow> fraction now s < 0)"
  using animate_open(2) [OF assms(1-3), of clk now]
  by (auto simp: fraction_def tickStart_def divide_neg_pos)

theorem animate_fraction_witness:
  "playing playing3 \<and> segmentFrom playing3 = Some (route3 ! 0) \<and> segmentTo playing3 = Some (route3 ! 1)
   \<and> segmentStartTime playing3 = Some 1000 \<and> segmentDuration playing3 = 2000
   \<and> fraction 1500 playing3 = 1 / 4
   \<and> bikeMarker (state_of (animate 1500 1500 playing3)) = (1 / 4, 1 / 4)"
proof -
  have d: "segmentDuration playing3 = 2000" "segmentStartTime playing3 = Some 1000"
    by (simp_all add: playing3_eval)
  show ?thesis
    using animate_fraction [OF open_playing3, of 1500 1500] d
    by (simp add: open_playing3 fraction_playing3 route3_def lerp_def fl_1 fl_quarter)
qed

theorem animate_fraction_counterexample:
  "playing playing3 \<and> segmentStartTime playing3 = Some 1000 \<and> segmentDuration playing3 = 2000
   \<and> fraction 500 playing3 = - 1 / 4 \<and> \<not> (0 \<le> fraction 500 playing3)
   \<and> bikeMarker (state_of (animate 500 500 playing3)) = (- 1 / 4, - 1 / 4)"
  using animate_open(2) [OF open_playing3, of 500 500]
  by (simp add: open_playing3 fraction_playing3 route3_def lerp_def fl_1 fl_quarter)
     (simp add: playing3_eval)

subsection \<open>The emitted speed\<close>

text \<open>The speed formula over the fallback duration gives a speed that is not zero for a distance of a metre or more.\<close>

lemma speedOver_fallback:
  assumes "1 \<le> d"
  shows "speedOver 2000 (Some d) \<noteq> Some 0"
proof -
  define g where "g = fl (d / 2)"
  define k :: real where "k = fl (36 / 10)"
  have "d / 2 - d / 2 / 2 ^ 53 - 1 / 2 ^ 53 \<le> g"
    unfolding g_def using assms by (intro fl_lower) simp
  then have g: "1 / 4 \<le> g" using assms by simp
  have "36 / 10 - 36 / 10 / 2 ^ 53 - 1 / 2 ^ 53 \<le> k"
    unfolding k_def by (intro fl_lower) simp
  then have k: "3 \<le> k" by simp
  have "1 / 4 * 3 \<le> g * k" using g k by (intro mult_mono) simp_all
  then have gk: "3 / 4 \<le> g * k" by simp
  have "g * k - g * k / 2 ^ 53 - 1 / 2 ^ 53 \<le> fl (g * k)"
    using gk by (intro fl_lower) simp
  then have "0 < fl (g * k)" using gk by simp
  then show ?thesis by (simp add: speedOver_def fl_2 g_def k_def)
qed

text \<open>
  Claim C6, as amended. A tick on the segment from \<open>a\<close> to \<open>b\<close> shows the speed
  \<open>segSpeed\<close> of the segment, which depends on neither the time of the tick nor the speed
  multiplier, and so does the next tick as long as the segment has not ended. When both
  waypoints carry a time stamp and the difference \<open>tb - ta\<close> is positive, the speed is the
  distance that \<open>haversine\<close> returns for the segment, divided by \<open>(tb - ta) / 1000\<close> and
  multiplied by 3.6, in double arithmetic (and \<open>NaN\<close> when the distance is). When both carry
  a time stamp and the difference is not positive, or neither carries one, the speed is 0:
  the fallback duration is not used.
\<close>

theorem animate_speed:
  assumes "playing s" and "segmentFrom s = Some a" and "segmentTo s = Some b"
    and "segDist = haversine (mathLib s) (lat a, lng a) (lat b, lng b)"
  shows "speedEl (state_of (animate clk now s)) = Kmh (segSpeed (mathLib s) a b)
       \<and> (fraction now s < 1 \<longrightarrow>
             speedEl (state_of (animate clk' now' (state_of (animate clk now s))))
               = Kmh (segSpeed (mathLib s) a b))
       \<and> (\<forall>ta tb d. timestamp a = Some ta \<and> timestamp b = Some tb \<and> ta < tb \<and> segDist = Some d
             \<longrightarrow> segSpeed (mathLib s) a b
                   = Some (fl (fl (d / fl ((tb - ta) / 1000)) * fl (36 / 10))))
       \<and> (\<forall>ta tb. timestamp a = Some ta \<and> timestamp b = Some tb \<and> ta < tb \<and> segDist = None
             \<longrightarrow> segSpeed (mathLib s) a b = None)
       \<and> ((\<exists>ta tb. timestamp a = Some ta \<and> timestamp b = Some tb \<and> tb \<le> ta)
             \<or> (timestamp a = None \<and> timestamp b = None)
             \<longrightarrow> segSpeed (mathLib s) a b = Some 0)"
proof -
  have "speedEl (state_of (animate clk' now' (state_of (animate clk now s))))
          = Kmh (segSpeed (mathLib s) a b)"
    if "fraction now s < 1"
  proof -
    note st = animate_stays [OF assms(1-3) that, of clk]
    from st have "playing (state_of (animate clk now s))"
      "segmentFrom (state_of (animate clk now s)) = Some a"
      "segmentTo (state_of (animate clk now s)) = Some b" by simp_all
    from animate_open(4) [OF this, of clk' now'] st show ?thesis by simp
  qed
  then show ?thesis
    using animate_open(4) [OF assms(1-3), of clk now] assms(4)
    by (auto simp: segSpeed_def speedOver_def Let_def)
qed

theorem animate_speed_witness:
  "playing playing3 \<and> segmentFrom playing3 = Some (route3 ! 0) \<and> segmentTo playing3 = Some (route3 ! 1)
   \<and> timestamp (route3 ! 0) = Some 1000 \<and> timestamp (route3 ! 1) = Some 3000
   \<and> fraction 1500 playing3 < 1
   \<and> speedEl (state_of (animate 1500 1500 playing3))
        = Kmh (speedOver 2000 (haversine exactMath (0, 0) (1, 1)))
   \<and> speedEl (state_of (animate 2500 2500 (state_of (animate 1500 1500 playing3))))
        = Kmh (speedOver 2000 (haversine exactMath (0, 0) (1, 1)))"
proof -
  have m: "mathLib playing3 = exactMath" by (simp add: playing3_eval)
  have t: "timestamp (route3 ! 0) = Some 1000" "timestamp (route3 ! 1) = Some 3000"
    "lat (route3 ! 0) = 0" "lng (route3 ! 0) = 0" "lat (route3 ! 1) = 1" "lng (route3 ! 1) = 1"
    by (simp_all add: route3_def)
  have f: "fraction 1500 playing3 < 1" by (simp add: fraction_playing3)
  have v: "segSpeed exactMath (route3 ! 0) (route3 ! 1)
             = speedOver 2000 (haversine exactMath (0, 0) (1, 1))"
    by (simp add: segSpeed_def route3_def)
  note h = animate_speed [OF open_playing3 refl, of 1500 1500 2500 2500]
  have 1: "speedEl (state_of (animate 1500 1500 playing3))
             = Kmh (speedOver 2000 (haversine exactMath (0, 0) (1, 1)))"
    using h [THEN conjunct1] unfolding m v .
  have 2: "speedEl (state_of (animate 2500 2500 (state_of (animate 1500 1500 playing3))))
             = Kmh (speedOver 2000 (haversine exactMath (0, 0) (1, 1)))"
    using h [THEN conjunct2, THEN conjunct1] f unfolding m v by blast
  show ?thesis
    using 1 2 f t(1,2) open_playing3 by blast
qed

theorem fallback_speed_counterexample:
  "playing playingGap \<and> segmentFrom playingGap = Some (routeGap ! 0)
   \<and> segmentTo playingGap = Some (routeGap ! 1)
   \<and> timestamp (routeGap ! 0) = None \<and> timestamp (routeGap ! 1) = None
   \<and> segmentDuration playingGap = 2000 \<and> mathLib playingGap = exactMath
   \<and> speedEl (state_of (animate 1500 1500 playingGap)) = Kmh (Some 0)
   \<and> speedOver (segmentDuration playingGap) (haversine exactMath (0, 0) (0, 180)) \<noteq> Some 0
   \<and> speedEl (state_of (animate 1500 1500 playingGap))
        \<noteq> Kmh (speedOver (segmentDuration playingGap)
                 (haversine (mathLib playingGap) (0, 0) (0, 180)))"
proof -
  have e: "segmentDuration playingGap = 2000" "mathLib playingGap = exactMath"
    by (simp_all add: playingGap_eval)
  have t: "timestamp (routeGap ! 0) = None" "timestamp (routeGap ! 1) = None"
    by (simp_all add: routeGap_def)
  have z: "speedEl (state_of (animate 1500 1500 playingGap)) = Kmh (Some 0)"
    using animate_open(4) [OF open_playingGap, of 1500 1500] by (simp add: segSpeed_def routeGap_def)
  obtain d where d: "haversine exactMath (0, 0) (0, 180) = Some d" "1 \<le> d"
    using haversine_half_equator by blast
  have n: "speedOver 2000 (haversine exactMath (0, 0) (0, 180)) \<noteq> Some 0"
    unfolding d(1) using d(2) by (rule speedOver_fallback)
  show ?thesis
    using open_playingGap t n by (simp add: e z)
qed

subsection \<open>Reset\<close>

text \<open>
  Claim C7. With a loaded route, reset returns and leaves the index at 0, the live trail
  empty, the marker on waypoint 0, the elapsed field at \<open>00:00:00\<close>, the speed field at
  the placeholder, playback stopped and the requested frame cancelled, so that from a
  reachable state no frame request stays queued; a tick after it changes nothing.
\<close>

theorem reset_stationary:
  assumes "route s \<noteq> []"
  shows "returned (resetSimulation s)
       \<and> index (state_of (resetSimulation s)) = 0
       \<and> livePolyline (state_of (resetSimulation s)) = []
       \<and> bikeMarker (state_of (resetSimulation s)) = (lat (route s ! 0), lng (route s ! 0))
       \<and> elapsedEl (state_of (resetSimulation s)) = Lit ''00:00:00''
       \<and> speedEl (state_of (resetSimulation s)) = Dash
       \<and> progressEl (state_of (resetSimulation s)) = Lit (progressText 0 (length (route s)))
       \<and> \<not> playing (state_of (resetSimulation s))
       \<and> pending (state_of (resetSimulation s))
            = (case animRequest s of None \<Rightarrow> pending s | Some h \<Rightarrow> removeAll h (pending s))
       \<and> (reachable s \<longrightarrow> pending (state_of (resetSimulation s)) = [])
       \<and> animate clk now (state_of (resetSimulation s)) = Done (state_of (resetSimulation s))
       \<and> route (state_of (resetSimulation s)) = route s"
proof -
  have "reachable s \<longrightarrow> pending (state_of (resetSimulation s)) = []"
    by (simp add: reachable_reset_pending)
  then show ?thesis
    using assms
    by (cases "animRequest s")
       (simp_all add: resetSimulation_def updateInfo_def cancelAnimationFrame_def Let_def animate_def)
qed

lemma reachable_resumed3: "reachable resumed3"
proof -
  have "boot = boot\<lparr>mathLib := exactMath\<rparr>" by (simp add: boot_def)
  then have "reachable (loaded route3)"
    unfolding loaded_def using reachable.start [of route3 exactMath] by simp
  then show ?thesis
    unfolding resumed3_def paused3_def playing3_def by (intro reachable.click)
qed

theorem reset_stationary_witness:
  "route resumed3 \<noteq> [] \<and> reachable resumed3 \<and> playing resumed3 \<and> pending resumed3 = [1]
   \<and> returned (resetSimulation resumed3)
   \<and> index (state_of (resetSimulation resumed3)) = 0
   \<and> livePolyline (state_of (resetSimulation resumed3)) = []
   \<and> bikeMarker (state_of (resetSimulation resumed3)) = (0, 0)
   \<and> elapsedEl (state_of (resetSimulation resumed3)) = Lit ''00:00:00''
   \<and> speedEl (state_of (resetSimulation resumed3)) = Dash
   \<and> \<not> playing (state_of (resetSimulation resumed3))
   \<and> pending (state_of (resetSimulation resumed3)) = []"
proof -
  have r: "route resumed3 \<noteq> []" "playing resumed3" "pending resumed3 = [1]"
    "route resumed3 ! 0 = \<lparr>lat = 0, lng = 0, timestamp = Some 1000\<rparr>"
    "animRequest resumed3 = Some 1"
    by (simp_all add: resumed3_eval playing3_eval route3_def)
  show ?thesis
    using reset_stationary [OF r(1), of 0 0] reachable_resumed3 r by simp
qed

subsection \<open>Commands without a route\<close>

text \<open>
  Claim C8, as amended. While the route is empty, a click on the play/pause button returns
  and leaves the whole state unchanged; the speed slider still sets the multiplier and its
  label, and changes nothing else.
\<close>

theorem empty_route_commands:
  assumes "route s = []"
  shows "playPauseClick clk s = Done s
       \<and> speedInput v s = s\<lparr>speedMultiplier := v, speedValue := Times v\<rparr>"
  using assms by (simp add: playPauseClick_def speedInput_def Let_def)

theorem empty_route_commands_witness:
  "route boot = [] \<and> playPauseClick 1000 boot = Done boot
   \<and> speedInput 2 boot = boot\<lparr>speedMultiplier := 2, speedValue := Times 2\<rparr>"
  using empty_route_commands [of boot 1000 2]
  by (simp add: boot_def)

theorem empty_route_counterexample:
  "route boot = [] \<and> speedInput 2 boot \<noteq> boot
   \<and> speedMultiplier boot = 1 \<and> speedMultiplier (speedInput 2 boot) = 2
   \<and> \<not> returned (resetSimulation boot)
   \<and> resetSimulation boot = Threw TypeError boot"
  by (simp add: boot_def speedInput_def resetSimulation_def cancelAnimationFrame_def Let_def)

subsection \<open>A route of one waypoint\<close>

text \<open>
  Claim C9. On a route of exactly one waypoint, play returns: playback is not running
  afterwards, the index is the last one, the segment variables are untouched, the marker is
  on the waypoint, the progress field reads \<open>1 / 1\<close>, and a tick changes nothing.
\<close>

theorem single_waypoint_play:
  assumes "route s = [w]" and "\<not> playing s"
  shows "returned (playPauseClick clk s)
       \<and> \<not> playing (state_of (playPauseClick clk s))
       \<and> index (state_of (playPauseClick clk s)) = 0
       \<and> int (index (state_of (playPauseClick clk s)))
            = int (length (route (state_of (playPauseClick clk s)))) - 1
       \<and> segmentFrom (state_of (playPauseClick clk s)) = segmentFrom s
       \<and> segmentTo (state_of (playPauseClick clk s)) = segmentTo s
       \<and> segmentStartTime (state_of (playPauseClick clk s)) = segmentStartTime s
       \<and> segmentDuration (state_of (playPauseClick clk s)) = segmentDuration s
       \<and> bikeMarker (state_of (playPauseClick clk s)) = (lat w, lng w)
       \<and> livePolyline (state_of (playPauseClick clk s)) = []
       \<and> playPauseBtn (state_of (playPauseClick clk s)) = Lit ''Play''
       \<and> progressEl (state_of (playPauseClick clk s)) = Lit ''1 / 1''
       \<and> animate clk' now (state_of (playPauseClick clk s)) = Done (state_of (playPauseClick clk s))"
  using assms
  by (cases "animRequest s")
     (simp_all add: playPauseClick_def resetSimulation_def updateInfo_def startSegment_def
        requestTick_def requestAnimationFrame_def cancelAnimationFrame_def Let_def animate_def
        progressText_def showNat_small digit_def)

theorem single_waypoint_play_witness:
  "route (loaded route1) = [\<lparr>lat = 5, lng = 7, timestamp = Some 1000\<rparr>] \<and> \<not> playing (loaded route1)
   \<and> returned (playPauseClick 1000 (loaded route1))
   \<and> \<not> playing (state_of (playPauseClick 1000 (loaded route1)))
   \<and> segmentFrom (state_of (playPauseClick 1000 (loaded route1))) = None
   \<and> segmentTo (state_of (playPauseClick 1000 (loaded route1))) = None
   \<and> bikeMarker (state_of (playPauseClick 1000 (loaded route1))) = (5, 7)
   \<and> progressEl (state_of (playPauseClick 1000 (loaded route1))) = Lit ''1 / 1''"
proof -
  have h: "route (loaded route1) = [\<lparr>lat = 5, lng = 7, timestamp = Some 1000\<rparr>]"
          "\<not> playing (loaded route1)"
    unfolding loaded_route1 by (simp_all add: route1_def)
  have n: "segmentFrom (loaded route1) = None" "segmentTo (loaded route1) = None"
    unfolding loaded_route1 by simp_all
  show ?thesis
    using single_waypoint_play [OF h, of 1000 0 0] h n by simp
qed

subsection \<open>The speed multiplier\<close>

lemma speedMultiplier_startSegment: "speedMultiplier (startSegment clk i s) = speedMultiplier s"
  by (simp add: startSegment_def Let_def split: option.splits)

lemma speedMultiplier_requestTick: "speedMultiplier (requestTick s) = speedMultiplier s"
  by (simp add: requestTick_def requestAnimationFrame_def)

lemma speedMultiplier_reset: "speedMultiplier (state_of (resetSimulation s)) = speedMultiplier s"
  by (cases "animRequest s")
     (simp_all add: resetSimulation_def updateInfo_def cancelAnimationFrame_def Let_def)

lemma speedMultiplier_animate: "speedMultiplier (state_of (animate clk now s)) = speedMultiplier s"
  by (simp add: animate_def Let_def speedMultiplier_startSegment speedMultiplier_requestTick
        split: option.splits)

lemma speedMultiplier_click: "speedMultiplier (state_of (playPauseClick clk s)) = speedMultiplier s"
proof (cases "resetSimulation s")
  case (Done s')
  then have "speedMultiplier s' = speedMultiplier s" using speedMultiplier_reset [of s] by simp
  then show ?thesis using Done
    by (simp add: playPauseClick_def Let_def speedMultiplier_startSegment speedMultiplier_requestTick
          cancelAnimationFrame_def split: option.splits)
next
  case (Threw e s')
  then have "speedMultiplier s' = speedMultiplier s" using speedMultiplier_reset [of s] by simp
  then show ?thesis using Threw
    by (simp add: playPauseClick_def Let_def speedMultiplier_startSegment speedMultiplier_requestTick
          cancelAnimationFrame_def split: option.splits)
qed

lemma reset_frame:
  "route (state_of (resetSimulation s)) = route s"
  "segmentDuration (state_of (resetSimulation s)) = segmentDuration s"
  by (cases "animRequest s"; simp add: resetSimulation_def updateInfo_def cancelAnimationFrame_def Let_def)+

text \<open>
  Claim C10. Reset leaves the speed multiplier as it was, and so do the play/pause click, a
  tick, the opening of a segment and the loading of a route; only the speed slider sets
  it. A segment opened after a reset gets the duration it would have got before it.
\<close>

theorem reset_keeps_speedMultiplier:
  "speedMultiplier (state_of (resetSimulation s)) = speedMultiplier s
   \<and> speedMultiplier (state_of (playPauseClick clk s)) = speedMultiplier s
   \<and> speedMultiplier (state_of (animate clk now s)) = speedMultiplier s
   \<and> speedMultiplier (startSegment clk i s) = speedMultiplier s
   \<and> speedMultiplier (state_of (loadRoute pts s)) = speedMultiplier s
   \<and> speedMultiplier (speedInput v s) = v
   \<and> segmentDuration (startSegment clk i (state_of (resetSimulation s)))
        = segmentDuration (startSegment clk i s)"
proof -
  have "speedMultiplier (state_of (loadRoute pts s)) = speedMultiplier s"
    by (simp add: loadRoute_def updateInfo_def Let_def)
  moreover have "segmentDuration (startSegment clk i (state_of (resetSimulation s)))
        = segmentDuration (startSegment clk i s)"
    by (simp add: startSegment_def Let_def reset_frame speedMultiplier_reset split: option.splits)
  ultimately show ?thesis
    by (simp add: speedMultiplier_reset speedMultiplier_click speedMultiplier_animate
          speedMultiplier_startSegment speedInput_def Let_def)
qed

end
